theory Spec2Isabelle
  imports Complex_Main "HOL-Library.AList" "HOL-Library.List_Lexorder"
begin

section \<open>Python values\<close>

text \<open>
  The record store keeps one JSON document, so every value the code handles is a JSON
  value as Python's \<open>json\<close> module reads it: \<open>None\<close>, a bool, an int, a float, a string,
  a list or a dict with string keys. A dict is an association list in insertion order.
  A finite float is the rational number that the double denotes, the positive zero being
  \<open>Fin 0\<close>; the negative zero, the infinities and NaN are values of their own.
\<close>

datatype pyfloat = Fin rat | NegZero | PosInf | NegInf | NaN

datatype pyval =
    PNone
  | PBool bool
  | PInt int
  | PFloat pyfloat
  | PStr string
  | PList "pyval list"
  | PDict "(string \<times> pyval) list"

type_synonym pydict = "(string \<times> pyval) list"

datatype py_error =
    AttributeError | ValueError | TypeError | KeyError | IndexError | OverflowError

section \<open>data.py: the persisted document\<close>

text \<open>
  \<open>DATA_FILE\<close> is absent, holds text that \<open>json.load\<close> rejects with
  \<open>JSONDecodeError\<close>, or holds a document (a JSON object: every \<open>save_data\<close> writes
  one). \<open>side_files\<close> are the other files of the directory, by name.
\<close>

datatype data_file = NoFile | Malformed string | Doc pydict

record fs =
  data_file :: data_file
  side_files :: "(string \<times> string) list"

fun digit_char :: "nat \<Rightarrow> char" where
  "digit_char n = ''0123456789'' ! (n mod 10)"

fun nat_digits :: "nat \<Rightarrow> string" where
  "nat_digits n = (if n < 10 then [digit_char n] else nat_digits (n div 10) @ [digit_char n])"

definition int_str :: "int \<Rightarrow> string" where
  "int_str i = (if i < 0 then CHR ''-'' # nat_digits (nat (- i)) else nat_digits (nat i))"

text \<open>
  \<open>os.time()\<close>: the module \<open>os\<close> has no attribute \<open>time\<close>, so evaluating the
  expression raises \<open>AttributeError\<close>.
\<close>

definition os_time :: "py_error + int" where
  "os_time = Inl AttributeError"

text \<open>
  \<open>load_data\<close>. The handler of \<open>JSONDecodeError\<close> first builds the backup name
  \<open>DATA_FILE + '.corrupt.' + str(int(os.time()))\<close> and then moves the file there.
\<close>

definition load_data :: "fs \<Rightarrow> fs \<times> (py_error + pydict)" where
  "load_data s =
     (case data_file s of
        NoFile \<Rightarrow> (s, Inr [])
      | Doc d \<Rightarrow> (s, Inr d)
      | Malformed c \<Rightarrow>
          (case os_time of
             Inl e \<Rightarrow> (s, Inl e)
           | Inr t \<Rightarrow>
               (s\<lparr>data_file := NoFile,
                   side_files := (''data.json.corrupt.'' @ int_str t, c) # side_files s\<rparr>,
                Inr [])))"

text \<open>\<open>save_data\<close>: the document replaces the file as a whole.\<close>

definition save_data :: "fs \<Rightarrow> pydict \<Rightarrow> fs" where
  "save_data s d = s\<lparr>data_file := Doc d\<rparr>"

section \<open>Python builtins used by the code\<close>

text \<open>
  A string stands for a Python string by its UTF-8 encoding: an ASCII string is the list of
  its characters, one byte each. On an ASCII string the methods \<open>strip\<close>, \<open>title\<close> and
  \<open>lower\<close> and the conversion \<open>float\<close> are written out below. On a string with a
  character beyond ASCII their results follow the Unicode tables of the interpreter, which
  are no part of the program: there each of them is a parameter, a field of the record
  \<open>builtins\<close>. The \<open>repr\<close> of a float, a list or a dict, which the code only passes on
  as text, is a parameter too.
\<close>

record builtins =
  py_repr :: "pyval \<Rightarrow> string"
  uni_strip :: "string \<Rightarrow> string"
  uni_title :: "string \<Rightarrow> string"
  uni_lower :: "string \<Rightarrow> string"
  uni_float :: "string \<Rightarrow> py_error + pyfloat"

definition is_ascii :: "string \<Rightarrow> bool" where
  "is_ascii s = list_all (\<lambda>c. (of_char c :: nat) < 128) s"

text \<open>
  The characters of a string: a byte from 128 to 191 continues the character begun before
  it. \<open>len\<close> of a string counts its characters, and a loop over it visits them.
\<close>

definition is_continuation :: "char \<Rightarrow> bool" where
  "is_continuation c = (128 \<le> (of_char c :: nat) \<and> (of_char c :: nat) < 192)"

fun utf8_chars :: "string \<Rightarrow> string list" where
  "utf8_chars [] = []"
| "utf8_chars (c # cs) =
     (case utf8_chars cs of
        [] \<Rightarrow> [[c]]
      | x # xs \<Rightarrow> (case x of
                     [] \<Rightarrow> [c] # xs
                   | y # _ \<Rightarrow> if is_continuation y then (c # x) # xs else [c] # x # xs))"

subsection \<open>\<open>str.strip\<close>, \<open>str.lower\<close>, \<open>str.title\<close>\<close>

text \<open>The ASCII characters that \<open>str.strip()\<close> removes at both ends.\<close>

definition is_space :: "char \<Rightarrow> bool" where
  "is_space c = (c \<in> set [CHR '' '', CHR 0x09, CHR 0x0A, CHR 0x0B, CHR 0x0C, CHR 0x0D,
                             CHR 0x1C, CHR 0x1D, CHR 0x1E, CHR 0x1F])"

definition ascii_strip :: "string \<Rightarrow> string" where
  "ascii_strip s = rev (dropWhile is_space (rev (dropWhile is_space s)))"

definition strip :: "builtins \<Rightarrow> string \<Rightarrow> string" where
  "strip B s = (if is_ascii s then ascii_strip s else uni_strip B s)"

definition lowers :: string where
  "lowers = ''abcdefghijklmnopqrstuvwxyz''"

definition uppers :: string where
  "uppers = ''ABCDEFGHIJKLMNOPQRSTUVWXYZ''"

definition to_lower :: "char \<Rightarrow> char" where
  "to_lower c = (case map_of (zip uppers lowers) c of Some l \<Rightarrow> l | None \<Rightarrow> c)"

definition to_upper :: "char \<Rightarrow> char" where
  "to_upper c = (case map_of (zip lowers uppers) c of Some u \<Rightarrow> u | None \<Rightarrow> c)"

definition is_cased :: "char \<Rightarrow> bool" where
  "is_cased c = (c \<in> set lowers \<or> c \<in> set uppers)"

definition ascii_lower :: "string \<Rightarrow> string" where
  "ascii_lower s = map to_lower s"

definition lower :: "builtins \<Rightarrow> string \<Rightarrow> string" where
  "lower B s = (if is_ascii s then ascii_lower s else uni_lower B s)"

text \<open>
  \<open>str.title\<close> on an ASCII string: a letter is upper-cased when the character before it
  is no letter, and lower-cased otherwise.
\<close>

fun title_from :: "bool \<Rightarrow> string \<Rightarrow> string" where
  "title_from prev [] = []"
| "title_from prev (c # cs) =
     (if prev then to_lower c else to_upper c) # title_from (is_cased c) cs"

definition ascii_title :: "string \<Rightarrow> string" where
  "ascii_title s = title_from False s"

definition title :: "builtins \<Rightarrow> string \<Rightarrow> string" where
  "title B s = (if is_ascii s then ascii_title s else uni_title B s)"

text \<open>\<open>bool(v)\<close>: Python's truth value. Both zeros of the floats are false.\<close>

fun truthy :: "pyval \<Rightarrow> bool" where
  "truthy PNone = False"
| "truthy (PBool b) = b"
| "truthy (PInt i) = (i \<noteq> 0)"
| "truthy (PFloat f) = (f \<noteq> Fin 0 \<and> f \<noteq> NegZero)"
| "truthy (PStr s) = (s \<noteq> [])"
| "truthy (PList xs) = (xs \<noteq> [])"
| "truthy (PDict d) = (d \<noteq> [])"

text \<open>\<open>str(v)\<close>: the text of a float, a list or a dict is its \<open>repr\<close>.\<close>

fun py_str :: "builtins \<Rightarrow> pyval \<Rightarrow> string" where
  "py_str B (PStr s) = s"
| "py_str B PNone = ''None''"
| "py_str B (PBool b) = (if b then ''True'' else ''False'')"
| "py_str B (PInt i) = int_str i"
| "py_str B v = py_repr B v"

subsection \<open>Doubles\<close>

text \<open>
  The double nearest to a rational number, a tie going to the even mantissa. The unit in
  the last place of a number between \<open>2^e\<close> and \<open>2^(e+1)\<close> is \<open>2^(e-52)\<close>, and
  \<open>2^-1074\<close> below \<open>2^-1022\<close>; a result of \<open>2^1024\<close> or more is an infinity, and a
  negative number that rounds to 0 gives the negative zero.
\<close>

definition round_half_even :: "rat \<Rightarrow> int" where
  "round_half_even q =
     (let f = \<lfloor>q\<rfloor>; d = q - of_int f
      in if d < 1 / 2 then f else if 1 / 2 < d then f + 1 else if even f then f else f + 1)"

function bit_length :: "int \<Rightarrow> int" where
  "bit_length n = (if n \<le> 0 then 0 else 1 + bit_length (n div 2))"
  by pat_completeness auto
termination
  by (relation "measure nat") auto

function ipow :: "rat \<Rightarrow> int \<Rightarrow> rat" where
  "ipow b e = (if e \<le> 0 then 1
               else if even e then ipow (b * b) (e div 2)
               else b * ipow (b * b) (e div 2))"
  by pat_completeness auto
termination
  by (relation "measure (\<lambda>(b, e). nat e)") auto

definition pow2 :: "int \<Rightarrow> rat" where
  "pow2 e = (if 0 \<le> e then ipow 2 e else 1 / ipow 2 (- e))"

text \<open>The \<open>e\<close> with \<open>2^e \<le> a < 2^(e+1)\<close>, for a positive \<open>a\<close>.\<close>

definition ilog2 :: "rat \<Rightarrow> int" where
  "ilog2 a = (case quotient_of a of
                (n, d) \<Rightarrow> let e = bit_length n - bit_length d
                          in if pow2 e \<le> a then e else e - 1)"

definition double_of_rat :: "rat \<Rightarrow> pyfloat" where
  "double_of_rat q =
     (if q = 0 then Fin 0
      else
        let a = \<bar>q\<bar>; e = ilog2 a in
        if 1024 \<le> e then (if q < 0 then NegInf else PosInf)
        else
          let u = pow2 (max e (- 1022) - 52);
              n = round_half_even (a / u)
          in if e = 1023 \<and> n = 9007199254740992 then (if q < 0 then NegInf else PosInf)
             else if n = 0 then (if q < 0 then NegZero else Fin 0)
             else Fin (if q < 0 then - (of_int n * u) else of_int n * u))"

fun float_neg :: "pyfloat \<Rightarrow> pyfloat" where
  "float_neg (Fin q) = (if q = 0 then NegZero else Fin (- q))"
| "float_neg NegZero = Fin 0"
| "float_neg PosInf = NegInf"
| "float_neg NegInf = PosInf"
| "float_neg NaN = NaN"

subsection \<open>\<open>float(v)\<close>\<close>

text \<open>
  \<open>float\<close> of an ASCII string removes the blanks \<open>' '\<close>, \<open>\t\<close>, \<open>\n\<close>, \<open>\v\<close>, \<open>\f\<close>
  and \<open>\r\<close> at both ends, checks the underscores, reads a sign and then \<open>inf\<close>,
  \<open>infinity\<close> or \<open>nan\<close> in any letter case, or a decimal number, which it rounds to the
  nearest double.
\<close>

definition is_float_space :: "char \<Rightarrow> bool" where
  "is_float_space c = (c \<in> set [CHR '' '', CHR 0x09, CHR 0x0A, CHR 0x0B, CHR 0x0C, CHR 0x0D])"

definition is_digit :: "char \<Rightarrow> bool" where
  "is_digit c = (c \<in> set ''0123456789'')"

definition digit_val :: "char \<Rightarrow> int" where
  "digit_val c = (case map_of (zip ''0123456789'' [0, 1, 2, 3, 4, 5, 6, 7, 8, 9]) c of
                    Some n \<Rightarrow> n | None \<Rightarrow> 0)"

definition digits_val :: "string \<Rightarrow> int" where
  "digits_val s = foldl (\<lambda>a c. 10 * a + digit_val c) 0 s"

text \<open>An underscore is allowed only between two digits.\<close>

fun underscores_ok :: "char option \<Rightarrow> string \<Rightarrow> bool" where
  "underscores_ok prev [] = True"
| "underscores_ok prev (c # cs) =
     (if c = CHR ''_''
      then (case prev of
              None \<Rightarrow> False
            | Some p \<Rightarrow> is_digit p \<and> (case cs of [] \<Rightarrow> False | n # _ \<Rightarrow> is_digit n)
                         \<and> underscores_ok (Some c) cs)
      else underscores_ok (Some c) cs)"

definition take_sign :: "string \<Rightarrow> bool \<times> string" where
  "take_sign s =
     (case s of
        [] \<Rightarrow> (False, [])
      | c # cs \<Rightarrow> if c = CHR ''-'' then (True, cs) else if c = CHR ''+'' then (False, cs)
                  else (False, s))"

definition scale10 :: "rat \<Rightarrow> int \<Rightarrow> rat" where
  "scale10 m e = (if 0 \<le> e then m * ipow 10 e else m / ipow 10 (- e))"

text \<open>
  A decimal literal without its sign: digits, an optional point and digits (one of the
  two digit parts may be empty, not both), an optional exponent with at least one digit.
\<close>

definition parse_exponent :: "string \<Rightarrow> int option" where
  "parse_exponent s =
     (case s of
        [] \<Rightarrow> Some 0
      | c # cs \<Rightarrow>
          if c = CHR ''e'' \<or> c = CHR ''E'' then
            (case take_sign cs of
               (neg, ds) \<Rightarrow>
                 if ds = [] \<or> \<not> list_all is_digit ds then None
                 else Some (if neg then - digits_val ds else digits_val ds))
          else None)"

definition parse_decimal :: "string \<Rightarrow> rat option" where
  "parse_decimal s =
     (let ip = takeWhile is_digit s;
          r = dropWhile is_digit s;
          fp = (case r of [] \<Rightarrow> [] | c # cs \<Rightarrow> if c = CHR ''.'' then takeWhile is_digit cs else []);
          r' = (case r of [] \<Rightarrow> [] | c # cs \<Rightarrow> if c = CHR ''.'' then dropWhile is_digit cs else r)
      in if ip = [] \<and> fp = [] then None
         else (case parse_exponent r' of
                 None \<Rightarrow> None
               | Some e \<Rightarrow> Some (scale10 (of_int (digits_val (ip @ fp))) (e - int (length fp)))))"

definition ascii_float :: "string \<Rightarrow> py_error + pyfloat" where
  "ascii_float s =
     (let t = rev (dropWhile is_float_space (rev (dropWhile is_float_space s))) in
      if \<not> underscores_ok None t then Inl ValueError
      else (case take_sign (filter (\<lambda>c. c \<noteq> CHR ''_'') t) of
              (neg, u) \<Rightarrow>
                if ascii_lower u = ''inf'' \<or> ascii_lower u = ''infinity''
                then Inr (if neg then NegInf else PosInf)
                else if ascii_lower u = ''nan'' then Inr NaN
                else (case parse_decimal u of
                        None \<Rightarrow> Inl ValueError
                      | Some q \<Rightarrow>
                          Inr (if neg then float_neg (double_of_rat q) else double_of_rat q))))"

definition float_of_string :: "builtins \<Rightarrow> string \<Rightarrow> py_error + pyfloat" where
  "float_of_string B s = (if is_ascii s then ascii_float s else uni_float B s)"

text \<open>
  \<open>float(v)\<close>: an int is rounded to the nearest double, and is an \<open>OverflowError\<close> when
  that is no finite double; a string is parsed; \<open>None\<close>, a list and a dict are a
  \<open>TypeError\<close>.
\<close>

fun py_float :: "builtins \<Rightarrow> pyval \<Rightarrow> py_error + pyfloat" where
  "py_float B (PFloat f) = Inr f"
| "py_float B (PInt i) =
     (case double_of_rat (of_int i) of
        PosInf \<Rightarrow> Inl OverflowError
      | NegInf \<Rightarrow> Inl OverflowError
      | f \<Rightarrow> Inr f)"
| "py_float B (PBool b) = Inr (Fin (if b then 1 else 0))"
| "py_float B (PStr s) = float_of_string B s"
| "py_float B v = Inl TypeError"

text \<open>
  Comparison of floats: every comparison with NaN is false, and the negative zero
  compares as 0.
\<close>

fun unsigned_zero :: "pyfloat \<Rightarrow> pyfloat" where
  "unsigned_zero NegZero = Fin 0"
| "unsigned_zero f = f"

fun float_lt :: "pyfloat \<Rightarrow> pyfloat \<Rightarrow> bool" where
  "float_lt (Fin a) (Fin b) = (a < b)"
| "float_lt NaN b = False"
| "float_lt a NaN = False"
| "float_lt NegInf b = (b \<noteq> NegInf)"
| "float_lt a PosInf = (a \<noteq> PosInf)"
| "float_lt a b = False"

definition float_less :: "pyfloat \<Rightarrow> pyfloat \<Rightarrow> bool" where
  "float_less a b = float_lt (unsigned_zero a) (unsigned_zero b)"

text \<open>
  \<open>round(x, 2)\<close>: the value of the double is rounded to two decimals, a tie to the even
  neighbour, and the result is the double nearest to that; a negative \<open>x\<close> that rounds
  to 0 gives the negative zero, and a float that is not finite is returned as it is.
\<close>

fun py_round2 :: "pyfloat \<Rightarrow> pyfloat" where
  "py_round2 (Fin q) =
     (let n = round_half_even (q * 100)
      in if n = 0 then (if q < 0 then NegZero else Fin 0) else double_of_rat (of_int n / 100))"
| "py_round2 f = f"

subsection \<open>Operations on values\<close>

text \<open>Exceptions propagate: the first error ends the computation.\<close>

definition bind :: "py_error + 'a \<Rightarrow> ('a \<Rightarrow> py_error + 'b) \<Rightarrow> py_error + 'b" where
  "bind m f = (case m of Inl e \<Rightarrow> Inl e | Inr v \<Rightarrow> f v)"

fun str_contains :: "string \<Rightarrow> string \<Rightarrow> bool" where
  "str_contains p [] = (p = [])"
| "str_contains p (c # cs) = (take (length p) (c # cs) = p \<or> str_contains p cs)"

text \<open>\<open>k in v\<close>, for a string \<open>k\<close>.\<close>

fun py_contains :: "string \<Rightarrow> pyval \<Rightarrow> py_error + bool" where
  "py_contains k (PDict d) = Inr (map_of d k \<noteq> None)"
| "py_contains k (PStr s) = Inr (str_contains k s)"
| "py_contains k (PList xs) = Inr (PStr k \<in> set xs)"
| "py_contains k v = Inl TypeError"

text \<open>\<open>v[k]\<close> and \<open>v[k] = x\<close>, for a string \<open>k\<close>: only a dict has string subscripts.\<close>

fun py_getitem :: "pyval \<Rightarrow> string \<Rightarrow> py_error + pyval" where
  "py_getitem (PDict d) k = (case map_of d k of None \<Rightarrow> Inl KeyError | Some x \<Rightarrow> Inr x)"
| "py_getitem v k = Inl TypeError"

fun py_setitem :: "pyval \<Rightarrow> string \<Rightarrow> pyval \<Rightarrow> py_error + pyval" where
  "py_setitem (PDict d) k x = Inr (PDict (AList.update k x d))"
| "py_setitem v k x = Inl TypeError"

text \<open>\<open>d.get(k, default)\<close> on a dict, and on any value (only a dict has \<open>get\<close>).\<close>

definition dict_get :: "pydict \<Rightarrow> string \<Rightarrow> pyval \<Rightarrow> pyval" where
  "dict_get d k dflt = (case map_of d k of None \<Rightarrow> dflt | Some x \<Rightarrow> x)"

fun py_get :: "pyval \<Rightarrow> string \<Rightarrow> pyval \<Rightarrow> py_error + pyval" where
  "py_get (PDict d) k dflt = Inr (dict_get d k dflt)"
| "py_get v k dflt = Inl AttributeError"

text \<open>\<open>d.update(e)\<close>: every entry of \<open>e\<close> is stored in \<open>d\<close>, in order.\<close>

definition dict_update :: "pydict \<Rightarrow> pydict \<Rightarrow> pydict" where
  "dict_update d e = foldl (\<lambda>acc kv. AList.update (fst kv) (snd kv) acc) d e"

text \<open>\<open>v + 1\<close>: the sum of a float and 1 is rounded to the nearest double.\<close>

fun py_add1 :: "pyval \<Rightarrow> py_error + pyval" where
  "py_add1 (PInt i) = Inr (PInt (i + 1))"
| "py_add1 (PBool b) = Inr (PInt (if b then 2 else 1))"
| "py_add1 (PFloat (Fin q)) = Inr (PFloat (double_of_rat (q + 1)))"
| "py_add1 (PFloat NegZero) = Inr (PFloat (Fin 1))"
| "py_add1 (PFloat f) = Inr (PFloat f)"
| "py_add1 v = Inl TypeError"

section \<open>data.py: the record store\<close>

definition slug_chars :: string where
  "slug_chars = ''abcdefghijklmnopqrstuvwxyz0123456789-''"

text \<open>
  \<open>VALID_SLUG_PATTERN.match(slug)\<close> for \<open>^[a-z0-9-]+$\<close>: in Python \<open>$\<close> also matches
  just before a newline that ends the string.
\<close>

definition valid_slug :: "string \<Rightarrow> bool" where
  "valid_slug s =
     (let t = (if s \<noteq> [] \<and> last s = CHR 0x0A then butlast s else s)
      in t \<noteq> [] \<and> list_all (\<lambda>c. c \<in> set slug_chars) t)"

definition VALID_ITEM_FIELDS :: "string list" where
  "VALID_ITEM_FIELDS = [''name'', ''name_ur'', ''price'', ''image_url'', ''category'',
                        ''is_available'', ''is_chefs_special'']"

definition VALID_THEMES :: "string list" where
  "VALID_THEMES = [''default'', ''traditional'']"

text \<open>
  \<open>get_restaurant\<close>: the record of the slug, or \<open>None\<close>. The copy it returns is the
  value itself here, values being immutable.
\<close>

definition get_restaurant :: "fs \<Rightarrow> string \<Rightarrow> fs \<times> (py_error + pyval)" where
  "get_restaurant s slug =
     (case load_data s of
        (s1, Inl e) \<Rightarrow> (s1, Inl e)
      | (s1, Inr data) \<Rightarrow> (s1, Inr (dict_get data slug PNone)))"

definition update_restaurant :: "fs \<Rightarrow> string \<Rightarrow> pyval \<Rightarrow> fs \<times> (py_error + bool)" where
  "update_restaurant s slug new_restaurant =
     (if \<not> valid_slug slug then (s, Inr False)
      else (case load_data s of
              (s1, Inl e) \<Rightarrow> (s1, Inl e)
            | (s1, Inr data) \<Rightarrow> (save_data s1 (AList.update slug new_restaurant data), Inr True)))"

subsection \<open>\<open>update_menu_item\<close>\<close>

text \<open>
  The body of the loop over \<open>fields.items()\<close> for a key \<open>k\<close> of \<open>VALID_ITEM_FIELDS\<close>:
  the value stored in \<open>valid_fields\<close>. The result \<open>Inr None\<close> is the early
  \<open>return False\<close>; an exception that the \<open>except (ValueError, TypeError)\<close> clause does
  not catch leaves the function.
\<close>

definition validate_field :: "builtins \<Rightarrow> string \<Rightarrow> pyval \<Rightarrow> py_error + pyval option" where
  "validate_field B k v =
     (if k = ''price'' then
        (case py_float B v of
           Inl e \<Rightarrow> if e = ValueError \<or> e = TypeError then Inr None else Inl e
         | Inr price \<Rightarrow>
             if float_less price (Fin 0) \<or> float_less (Fin 999999) price then Inr None
             else Inr (Some (PFloat (py_round2 price))))
      else if k = ''is_available'' \<or> k = ''is_chefs_special'' then Inr (Some (PBool (truthy v)))
      else if k = ''category'' then Inr (Some (PStr (title B (strip B (py_str B v)))))
      else Inr (Some (PStr (if truthy v then strip B (py_str B v) else []))))"

text \<open>The loop (\<open>flds\<close> is what is left of \<open>fields.items()\<close>): unknown keys are skipped.\<close>

fun validate_fields ::
  "builtins \<Rightarrow> pydict \<Rightarrow> pydict \<Rightarrow> py_error + pydict option" where
  "validate_fields B [] valid_fields = Inr (Some valid_fields)"
| "validate_fields B ((k, v) # flds) valid_fields =
     (if k \<notin> set VALID_ITEM_FIELDS then validate_fields B flds valid_fields
      else (case validate_field B k v of
              Inl e \<Rightarrow> Inl e
            | Inr None \<Rightarrow> Inr None
            | Inr (Some x) \<Rightarrow> validate_fields B flds (AList.update k x valid_fields)))"

text \<open>
  The \<open>try\<close> block. \<open>index\<close> is the integer of the route, so \<open>int(index)\<close> is the index
  itself. A \<open>TypeError\<close> of \<open>rest['menu']\<close> or of \<open>len\<close> is caught and gives \<open>False\<close>;
  the error of \<open>.update\<close> on an entry that is not a dict is not caught.
\<close>

definition try_update ::
  "fs \<Rightarrow> pydict \<Rightarrow> string \<Rightarrow> pyval \<Rightarrow> int \<Rightarrow> pydict \<Rightarrow> fs \<times> (py_error + bool)" where
  "try_update s data slug rest idx valid_fields =
     (if idx < 0 then (s, Inr False)
      else (case rest of
          PDict rd \<Rightarrow>
            (case map_of rd ''menu'' of
               None \<Rightarrow> (s, Inl KeyError)
             | Some (PList xs) \<Rightarrow>
                 if idx \<ge> int (length xs) then (s, Inr False)
                 else (case xs ! nat idx of
                         PDict item \<Rightarrow>
                           (save_data s
                              (AList.update slug
                                 (PDict (AList.update ''menu''
                                    (PList (xs[nat idx := PDict (dict_update item valid_fields)]))
                                    rd))
                                 data),
                            Inr True)
                       | _ \<Rightarrow> (s, Inl AttributeError))
             | Some (PStr t) \<Rightarrow>
                 if idx \<ge> int (length (utf8_chars t)) then (s, Inr False)
                 else (s, Inl AttributeError)
             | Some (PDict md) \<Rightarrow>
                 if idx \<ge> int (length md) then (s, Inr False) else (s, Inl KeyError)
             | Some _ \<Rightarrow> (s, Inr False))
        | _ \<Rightarrow> (s, Inr False)))"

definition update_menu_item ::
  "builtins \<Rightarrow> fs \<Rightarrow> string \<Rightarrow> int \<Rightarrow> pydict \<Rightarrow> fs \<times> (py_error + bool)" where
  "update_menu_item B s slug index flds =
     (case validate_fields B flds [] of
        Inl e \<Rightarrow> (s, Inl e)
      | Inr None \<Rightarrow> (s, Inr False)
      | Inr (Some valid_fields) \<Rightarrow>
          if valid_fields = [] then (s, Inr False)
          else (case load_data s of
                  (s1, Inl e) \<Rightarrow> (s1, Inl e)
                | (s1, Inr data) \<Rightarrow>
                    (case map_of data slug of
                       None \<Rightarrow> (s1, Inr False)
                     | Some rest \<Rightarrow>
                         if \<not> truthy rest then (s1, Inr False)
                         else (case py_contains ''menu'' rest of
                                 Inl e \<Rightarrow> (s1, Inl e)
                               | Inr has_menu \<Rightarrow>
                                   if \<not> has_menu then (s1, Inr False)
                                   else try_update s1 data slug rest index valid_fields))))"

subsection \<open>\<open>create_restaurant\<close>\<close>

text \<open>What a \<open>for\<close> loop over \<open>v\<close> visits: a string gives its characters, a dict its keys.\<close>

fun py_iter :: "pyval \<Rightarrow> py_error + pyval list" where
  "py_iter (PList xs) = Inr xs"
| "py_iter (PStr t) = Inr (map PStr (utf8_chars t))"
| "py_iter (PDict d) = Inr (map (\<lambda>kv. PStr (fst kv)) d)"
| "py_iter v = Inl TypeError"

text \<open>The dict built for a menu entry; \<open>float(item.get('price', 0))\<close> may raise.\<close>

definition sanitize_item :: "builtins \<Rightarrow> pydict \<Rightarrow> py_error + pyval" where
  "sanitize_item B item =
     bind (py_float B (dict_get item ''price'' (PInt 0)))
       (\<lambda>price. Inr (PDict
          [(''name'', PStr (strip B (py_str B (dict_get item ''name'' (PStr []))))),
           (''name_ur'', PStr (strip B (py_str B (dict_get item ''name_ur'' (PStr []))))),
           (''price'', PFloat price),
           (''image_url'', PStr (strip B (py_str B (dict_get item ''image_url'' (PStr []))))),
           (''category'',
              PStr (let c = title B (strip B (py_str B (dict_get item ''category'' (PStr ''Main Course''))))
                    in if c = [] then ''Main Course'' else c)),
           (''is_available'', PBool (truthy (dict_get item ''is_available'' (PBool True)))),
           (''is_chefs_special'', PBool (truthy (dict_get item ''is_chefs_special'' (PBool False))))]))"

text \<open>\<open>isinstance(item, dict) and 'name' in item\<close>.\<close>

fun is_named_dict :: "pyval \<Rightarrow> bool" where
  "is_named_dict (PDict d) = (map_of d ''name'' \<noteq> None)"
| "is_named_dict v = False"

fun the_dict :: "pyval \<Rightarrow> pydict" where
  "the_dict (PDict d) = d"
| "the_dict v = []"

text \<open>The loop over the menu of the draft: \<open>menu\<close> is \<open>rest['menu']\<close> so far.\<close>

fun add_menu_items :: "builtins \<Rightarrow> pyval list \<Rightarrow> pyval list \<Rightarrow> py_error + pyval list" where
  "add_menu_items B [] menu = Inr menu"
| "add_menu_items B (item # items) menu =
     (if is_named_dict item then
        (case sanitize_item B (the_dict item) of
           Inl e \<Rightarrow> Inl e
         | Inr it \<Rightarrow> add_menu_items B items (menu @ [it]))
      else add_menu_items B items menu)"

text \<open>
  \<open>create_restaurant\<close>. The draft \<open>restaurant\<close> is a dict; \<open>now\<close> is the reading of
  \<open>time.time()\<close>.
\<close>

definition create_restaurant ::
  "builtins \<Rightarrow> fs \<Rightarrow> pyfloat \<Rightarrow> string \<Rightarrow> pydict \<Rightarrow> string \<Rightarrow> fs \<times> (py_error + bool)" where
  "create_restaurant B s now slug restaurant default_theme =
     (if \<not> valid_slug slug then (s, Inr False)
      else
        let theme = (if default_theme \<notin> set VALID_THEMES then ''default'' else default_theme) in
        (case load_data s of
           (s1, Inl e) \<Rightarrow> (s1, Inl e)
         | (s1, Inr data) \<Rightarrow>
             if map_of data slug \<noteq> None then (s1, Inr False)
             else
               (case bind (py_iter (dict_get restaurant ''menu'' (PList [])))
                       (\<lambda>items. add_menu_items B items []) of
                  Inl e \<Rightarrow> (s1, Inl e)
                | Inr menu \<Rightarrow>
                    (save_data s1
                       (AList.update slug
                          (PDict
                             [(''name'',
                                 PStr (let n = strip B (py_str B (dict_get restaurant ''name'' (PStr slug)))
                                       in if n = [] then slug else n)),
                              (''name_ur'', PStr (strip B (py_str B (dict_get restaurant ''name_ur'' (PStr []))))),
                              (''whatsapp'', PStr (strip B (py_str B (dict_get restaurant ''whatsapp'' (PStr []))))),
                              (''menu'', PList menu),
                              (''theme'', PStr theme),
                              (''created_at'', PFloat now)])
                          data),
                     Inr True))))"

subsection \<open>\<open>get_analytics\<close> and \<open>track_click\<close>\<close>

definition get_analytics :: "fs \<Rightarrow> string \<Rightarrow> fs \<times> (py_error + pyval)" where
  "get_analytics s slug =
     (case load_data s of
        (s1, Inl e) \<Rightarrow> (s1, Inl e)
      | (s1, Inr data) \<Rightarrow>
          (let rest = dict_get data slug (PDict []) in
           (s1, bind (py_get rest ''total_clicks'' (PInt 0))
                  (\<lambda>total. bind (py_get rest ''item_clicks'' (PDict []))
                     (\<lambda>items. Inr (PDict [(''total_clicks'', total), (''item_clicks'', items)]))))))"

text \<open>
  What \<open>track_click\<close> does to the record \<open>rest\<close> between loading and saving:
  the counters live under \<open>rest['analytics']\<close>.
\<close>

definition count_click :: "builtins \<Rightarrow> pyval \<Rightarrow> pyval \<Rightarrow> py_error + pyval" where
  "count_click B rest item_index =
     bind (py_contains ''analytics'' rest) (\<lambda>has.
     bind (if has then Inr rest
           else py_setitem rest ''analytics'' (PDict [(''total'', PInt 0), (''items'', PDict [])]))
       (\<lambda>rest1.
     bind (py_getitem rest1 ''analytics'') (\<lambda>a.
     bind (py_getitem a ''total'') (\<lambda>t.
     bind (py_add1 t) (\<lambda>t'.
     bind (py_setitem a ''total'' t') (\<lambda>a1.
     bind (if item_index = PNone then Inr a1
           else
             (let idx = py_str B item_index in
              bind (py_getitem a1 ''items'') (\<lambda>items.
              bind (py_get items idx (PInt 0)) (\<lambda>c.
              bind (py_add1 c) (\<lambda>c'.
              bind (py_setitem items idx c') (\<lambda>items'.
              py_setitem a1 ''items'' items'))))))
       (\<lambda>a2. py_setitem rest1 ''analytics'' a2)))))))"

definition track_click ::
  "builtins \<Rightarrow> fs \<Rightarrow> string \<Rightarrow> pyval \<Rightarrow> fs \<times> (py_error + bool)" where
  "track_click B s slug item_index =
     (case load_data s of
        (s1, Inl e) \<Rightarrow> (s1, Inl e)
      | (s1, Inr data) \<Rightarrow>
          (case map_of data slug of
             None \<Rightarrow> (s1, Inr False)
           | Some rest \<Rightarrow>
               if \<not> truthy rest then (s1, Inr False)
               else (case count_click B rest item_index of
                       Inl e \<Rightarrow> (s1, Inl e)
                     | Inr rest' \<Rightarrow> (save_data s1 (AList.update slug rest' data), Inr True))))"

section \<open>app.py: the item update handler\<close>

definition allowed :: "string list" where
  "allowed = [''price'', ''is_available'', ''is_chefs_special'', ''name'', ''name_ur'',
              ''image_url'', ''category'']"

text \<open>
  The fields that \<open>api_update_item\<close> passes to \<open>update_menu_item\<close>, from the JSON object
  \<open>data\<close> of the request: the allowed keys, a string under \<open>is_available\<close> replaced by
  the bool \<open>val.lower() in ("1", "true", "yes")\<close>.
\<close>

definition api_fields :: "builtins \<Rightarrow> pydict \<Rightarrow> pydict" where
  "api_fields B data =
     (let flds = filter (\<lambda>kv. fst kv \<in> set allowed) data in
      case map_of flds ''is_available'' of
        Some (PStr val) \<Rightarrow>
          AList.update ''is_available'' (PBool (lower B val \<in> set [''1'', ''true'', ''yes''])) flds
      | _ \<Rightarrow> flds)"

text \<open>The handler answers with status 400 when the update fails and 200 otherwise.\<close>

definition api_update_item ::
  "builtins \<Rightarrow> fs \<Rightarrow> string \<Rightarrow> int \<Rightarrow> pydict \<Rightarrow> fs \<times> (py_error + nat)" where
  "api_update_item B s slug index data =
     (case update_menu_item B s slug index (api_fields B data) of
        (s1, Inl e) \<Rightarrow> (s1, Inl e)
      | (s1, Inr success) \<Rightarrow> (s1, Inr (if success then 200 else 400)))"

section \<open>analytics.py: the event store\<close>

text \<open>
  A row of the table \<open>events\<close>. A timestamp is compared field by field, from the year
  down, which is the order of the stored text \<open>YYYY-MM-DD HH:MM:SS\<close>.
\<close>

record datetime =
  dt_year :: int
  dt_month :: int
  dt_day :: int
  dt_hour :: int
  dt_minute :: int
  dt_second :: int
  dt_microsecond :: int

definition dt_key :: "datetime \<Rightarrow> int list" where
  "dt_key d = [dt_year d, dt_month d, dt_day d, dt_hour d, dt_minute d, dt_second d,
               dt_microsecond d]"

record event =
  ev_id :: nat
  ev_slug :: string
  ev_type :: string
  ev_item_index :: "int option"
  ev_ts :: datetime

text \<open>
  \<open>record_event\<close>: one row more, with the next id and the clock's \<open>CURRENT_TIMESTAMP\<close>
  (whole seconds).
\<close>

definition record_event :: "event list \<Rightarrow> datetime \<Rightarrow> string \<Rightarrow> string \<Rightarrow> int option \<Rightarrow> event list" where
  "record_event evs now slug etype item_index =
     evs @ [\<lparr>ev_id = Suc (foldr max (map ev_id evs) 0), ev_slug = slug, ev_type = etype,
              ev_item_index = item_index, ev_ts = now\<lparr>dt_microsecond := 0\<rparr>\<rparr>]"

definition record_scan :: "event list \<Rightarrow> datetime \<Rightarrow> string \<Rightarrow> event list" where
  "record_scan evs now slug = record_event evs now slug ''scan'' None"

definition record_click :: "event list \<Rightarrow> datetime \<Rightarrow> string \<Rightarrow> int option \<Rightarrow> event list" where
  "record_click evs now slug item_index = record_event evs now slug ''click'' item_index"

text \<open>\<open>datetime(year, month, 1)\<close>: a \<open>ValueError\<close> outside years 1 to 9999 and months 1 to 12.\<close>

definition first_of_month :: "int \<Rightarrow> int \<Rightarrow> py_error + datetime" where
  "first_of_month y m =
     (if 1 \<le> y \<and> y \<le> 9999 \<and> 1 \<le> m \<and> m \<le> 12
      then Inr \<lparr>dt_year = y, dt_month = m, dt_day = 1, dt_hour = 0, dt_minute = 0,
                 dt_second = 0, dt_microsecond = 0\<rparr>
      else Inl ValueError)"

text \<open>
  The queries. \<open>WHERE slug=:slug AND type=... AND ts>=:start AND ts<:end\<close> keeps the rows
  of the window; \<open>GROUP BY item_index\<close> makes one group for each value of the column, the
  rows without an index forming the group of \<open>NULL\<close>; \<open>ORDER BY cnt DESC LIMIT n\<close> takes
  the first \<open>n\<close> groups by falling count. SQL leaves the order among equal counts open;
  here such groups keep the order of the grouping.
\<close>

definition in_window :: "datetime \<Rightarrow> datetime \<Rightarrow> string \<Rightarrow> string \<Rightarrow> event \<Rightarrow> bool" where
  "in_window start endt slug etype e =
     (ev_slug e = slug \<and> ev_type e = etype \<and> dt_key start \<le> dt_key (ev_ts e)
      \<and> dt_key (ev_ts e) < dt_key endt)"

definition since_window :: "datetime \<Rightarrow> string \<Rightarrow> string \<Rightarrow> event \<Rightarrow> bool" where
  "since_window since slug etype e =
     (ev_slug e = slug \<and> ev_type e = etype \<and> dt_key since \<le> dt_key (ev_ts e))"

definition group_count :: "'a list \<Rightarrow> ('a \<times> nat) list" where
  "group_count xs = map (\<lambda>k. (k, count_list xs k)) (remdups xs)"

definition order_desc_limit :: "nat \<Rightarrow> ('a \<times> nat) list \<Rightarrow> ('a \<times> nat) list" where
  "order_desc_limit n gs = take n (sort_key (\<lambda>g. - int (snd g)) gs)"

record summary =
  sm_year :: int
  sm_month :: int
  scans :: nat
  clicks :: nat
  top_items :: "(int option \<times> nat) list"

text \<open>
  \<open>get_monthly_summary\<close>; \<open>now\<close> is the reading of \<open>datetime.utcnow()\<close>, \<open>year\<close> and
  \<open>month\<close> are optional.
\<close>

definition get_monthly_summary ::
  "event list \<Rightarrow> datetime \<Rightarrow> string \<Rightarrow> int option \<Rightarrow> int option \<Rightarrow> py_error + summary" where
  "get_monthly_summary evs now slug year month =
     (let y = (case year of None \<Rightarrow> dt_year now | Some v \<Rightarrow> v);
          m = (case month of None \<Rightarrow> dt_month now | Some v \<Rightarrow> v)
      in bind (first_of_month y m) (\<lambda>start.
         bind (if m = 12 then first_of_month (y + 1) 1 else first_of_month y (m + 1)) (\<lambda>endt.
         Inr \<lparr>sm_year = y, sm_month = m,
              scans = length (filter (in_window start endt slug ''scan'') evs),
              clicks = length (filter (in_window start endt slug ''click'') evs),
              top_items =
                order_desc_limit 10
                  (group_count (map ev_item_index (filter (in_window start endt slug ''click'') evs)))\<rparr>)))"

text \<open>
  \<open>get_top_items\<close>; \<open>since\<close> is the value of
  \<open>datetime.utcnow() - timedelta(days=since_days)\<close>.
\<close>

definition get_top_items :: "event list \<Rightarrow> datetime \<Rightarrow> string \<Rightarrow> (int option \<times> nat) list" where
  "get_top_items evs since slug =
     order_desc_limit 20
       (group_count (map ev_item_index (filter (since_window since slug ''click'') evs)))"

section \<open>Example data\<close>

text \<open>
  Builtins for the examples, which use ASCII text and no \<open>repr\<close>: the fields stand in
  for what is never called there. A store with one restaurant and one menu entry.
\<close>

definition B0 :: builtins where
  "B0 = \<lparr>py_repr = (\<lambda>v. ''?''), uni_strip = (\<lambda>s. s), uni_title = (\<lambda>s. s),
         uni_lower = (\<lambda>s. s), uni_float = (\<lambda>s. Inl ValueError)\<rparr>"

definition tea :: pydict where
  "tea = [(''name'', PStr ''Tea''), (''name_ur'', PStr []), (''price'', PFloat (Fin 50)),
          (''image_url'', PStr []), (''category'', PStr ''Drinks''),
          (''is_available'', PBool True), (''is_chefs_special'', PBool False)]"

definition cafe :: "pydict \<Rightarrow> pydict" where
  "cafe item = [(''name'', PStr ''Cafe''), (''name_ur'', PStr []), (''whatsapp'', PStr []),
                (''menu'', PList [PDict item]), (''theme'', PStr ''default''),
                (''created_at'', PFloat (Fin 0))]"

definition store_with :: "pydict \<Rightarrow> fs" where
  "store_with item = \<lparr>data_file = Doc [(''cafe'', PDict (cafe item))], side_files = []\<rparr>"

definition empty_store :: fs where
  "empty_store = \<lparr>data_file = NoFile, side_files = []\<rparr>"

text \<open>
  An event log for the slug \<open>cafe\<close>: a scan on the last second of December 2023, three
  scans and five clicks (two on entry 0, three on entry 1) in January 2024, the first
  scan on the first instant of the month, a click on the first instant of February, and
  a click for another slug.
\<close>

definition clock :: "int \<Rightarrow> int \<Rightarrow> int \<Rightarrow> int \<Rightarrow> int \<Rightarrow> int \<Rightarrow> datetime" where
  "clock y mo d h mi sec =
     \<lparr>dt_year = y, dt_month = mo, dt_day = d, dt_hour = h, dt_minute = mi, dt_second = sec,
      dt_microsecond = 250\<rparr>"

definition january_log :: "event list" where
  "january_log =
     record_click
      (record_click
        (record_click
          (record_click
            (record_click
              (record_click
                (record_click
                  (record_scan
                    (record_scan
                      (record_scan
                        (record_scan [] (clock 2023 12 31 23 59 59) ''cafe'')
                        (clock 2024 1 1 0 0 0) ''cafe'')
                      (clock 2024 1 10 12 0 0) ''cafe'')
                    (clock 2024 1 31 23 59 59) ''cafe'')
                  (clock 2024 1 5 9 30 0) ''cafe'' (Some 0))
                (clock 2024 1 6 9 30 0) ''cafe'' (Some 1))
              (clock 2024 1 7 9 30 0) ''cafe'' (Some 1))
            (clock 2024 1 8 9 30 0) ''cafe'' (Some 0))
          (clock 2024 1 31 23 59 59) ''cafe'' (Some 1))
        (clock 2024 2 1 0 0 0) ''cafe'' (Some 0))
      (clock 2024 1 9 9 30 0) ''other'' (Some 0)"

text \<open>The same log after four clicks without an index.\<close>

definition general_log :: "event list" where
  "general_log =
     record_click
      (record_click
        (record_click
          (record_click january_log (clock 2024 1 11 8 0 0) ''cafe'' None)
          (clock 2024 1 12 8 0 0) ''cafe'' None)
        (clock 2024 1 13 8 0 0) ''cafe'' None)
      (clock 2024 1 14 8 0 0) ''cafe'' None"

text \<open>A run of \<open>track_click\<close> calls on one slug, one call for each index of the list.\<close>

fun track_clicks :: "builtins \<Rightarrow> fs \<Rightarrow> string \<Rightarrow> pyval list \<Rightarrow> fs" where
  "track_clicks B s slug [] = s"
| "track_clicks B s slug (i # idxs) = track_clicks B (fst (track_click B s slug i)) slug idxs"

section \<open>Properties of the field validation\<close>

lemma float_less_Fin [simp]: "float_less (Fin a) (Fin b) = (a < b)"
  by (simp add: float_less_def)

lemma validate_field_not_price:
  "k \<noteq> ''price'' \<Longrightarrow> \<exists>x. validate_field B k v = Inr (Some x)"
  by (simp add: validate_field_def)

lemma validate_fields_rejects:
  "map_of flds ''price'' = Some v \<Longrightarrow> validate_field B ''price'' v = Inr None
     \<Longrightarrow> validate_fields B flds acc = Inr None"
proof (induction flds arbitrary: acc)
  case Nil
  then show ?case by simp
next
  case (Cons kv flds)
  obtain k w where kv: "kv = (k, w)" by (cases kv)
  show ?case
  proof (cases "k = ''price''")
    case True
    with Cons.prems kv show ?thesis by (simp add: VALID_ITEM_FIELDS_def)
  next
    case False
    with Cons.prems kv have m: "map_of flds ''price'' = Some v" by simp
    from False obtain x where x: "validate_field B k w = Inr (Some x)"
      using validate_field_not_price by blast
    show ?thesis using Cons.IH[OF m Cons.prems(2)] kv x by simp
  qed
qed

lemma validate_fields_lookup:
  "validate_fields B flds acc = Inr (Some vf) \<Longrightarrow> distinct (map fst flds) \<Longrightarrow>
   map_of vf k =
     (case map_of flds k of
        None \<Rightarrow> map_of acc k
      | Some v \<Rightarrow> if k \<in> set VALID_ITEM_FIELDS
                  then (case validate_field B k v of Inr (Some x) \<Rightarrow> Some x | _ \<Rightarrow> None)
                  else map_of acc k)"
proof (induction flds arbitrary: acc)
  case Nil
  then show ?case by simp
next
  case (Cons kv flds)
  obtain k' w where kv: "kv = (k', w)" by (cases kv)
  from Cons.prems(2) kv have d: "distinct (map fst flds)" and nk: "k' \<notin> fst ` set flds" by auto
  from nk have mk: "map_of flds k' = None" by (simp add: map_of_eq_None_iff)
  show ?case
  proof (cases "k' \<in> set VALID_ITEM_FIELDS")
    case False
    with Cons.prems(1) kv have "validate_fields B flds acc = Inr (Some vf)" by simp
    from Cons.IH[OF this d] show ?thesis using kv False mk by (auto split: option.splits)
  next
    case True
    with Cons.prems(1) kv obtain x where x: "validate_field B k' w = Inr (Some x)"
      and r: "validate_fields B flds (AList.update k' x acc) = Inr (Some vf)"
      by (auto split: sum.splits option.splits)
    from Cons.IH[OF r d] show ?thesis using kv True mk x
      by (auto simp: update_conv' split: option.splits)
  qed
qed

lemma validate_fields_distinct:
  "validate_fields B flds acc = Inr (Some vf) \<Longrightarrow> distinct (map fst acc) \<Longrightarrow> distinct (map fst vf)"
proof (induction flds arbitrary: acc)
  case Nil
  then show ?case by simp
next
  case (Cons kv flds)
  obtain k' w where kv: "kv = (k', w)" by (cases kv)
  show ?case
  proof (cases "k' \<in> set VALID_ITEM_FIELDS")
    case False
    with Cons kv show ?thesis by simp
  next
    case True
    with Cons.prems(1) kv obtain x where x: "validate_field B k' w = Inr (Some x)"
      and r: "validate_fields B flds (AList.update k' x acc) = Inr (Some vf)"
      by (auto split: sum.splits option.splits)
    from Cons.IH[OF r] Cons.prems(2) show ?thesis by (simp add: distinct_update)
  qed
qed

section \<open>Properties of \<open>update_menu_item\<close>\<close>

lemma load_data_eq:
  "load_data s = (s, case data_file s of NoFile \<Rightarrow> Inr [] | Doc d \<Rightarrow> Inr d
                       | Malformed c \<Rightarrow> Inl AttributeError)"
  by (simp add: load_data_def os_time_def split: data_file.splits)

lemma dict_update_Cons: "dict_update d ((k, v) # e) = dict_update (AList.update k v d) e"
  by (simp add: dict_update_def)

lemma dict_update_Nil: "dict_update d [] = d"
  by (simp add: dict_update_def)

lemma dict_update_lookup:
  "distinct (map fst e) \<Longrightarrow>
   map_of (dict_update d e) k = (case map_of e k of None \<Rightarrow> map_of d k | Some v \<Rightarrow> Some v)"
proof (induction e arbitrary: d)
  case Nil
  then show ?case by (simp add: dict_update_Nil)
next
  case (Cons kv e)
  obtain k' w where kv: "kv = (k', w)" by (cases kv)
  from Cons.prems kv have d: "distinct (map fst e)" and nk: "k' \<notin> fst ` set e" by auto
  from nk have mk: "map_of e k' = None" by (simp add: map_of_eq_None_iff)
  show ?case using Cons.IH[OF d, of "AList.update k' w d"] kv mk
    by (auto simp: dict_update_Cons update_conv' split: option.splits)
qed

lemma dict_update_same:
  "(\<And>k v. (k, v) \<in> set e \<Longrightarrow> map_of d k = Some v) \<Longrightarrow> dict_update d e = d"
proof (induction e arbitrary: d)
  case Nil
  then show ?case by (simp add: dict_update_Nil)
next
  case (Cons kv e)
  obtain k' w where kv: "kv = (k', w)" by (cases kv)
  from Cons.prems kv have "map_of d k' = Some w" by simp
  then have u: "AList.update k' w d = d" by (rule update_triv)
  show ?case using Cons.IH[of d] Cons.prems kv u by (simp add: dict_update_Cons)
qed

lemma dict_update_idem:
  assumes "distinct (map fst e)"
  shows "dict_update (dict_update d e) e = dict_update d e"
proof (rule dict_update_same)
  fix k v assume "(k, v) \<in> set e"
  with assms have "map_of e k = Some v" by simp
  then show "map_of (dict_update d e) k = Some v"
    by (simp add: dict_update_lookup[OF assms])
qed

lemma update_menu_item_success:
  assumes "data_file s = Doc data" "map_of data slug = Some (PDict rd)"
    "map_of rd ''menu'' = Some (PList xs)" "0 \<le> index" "index < int (length xs)"
    "xs ! nat index = PDict item" "validate_fields B flds [] = Inr (Some vf)" "vf \<noteq> []"
  shows "update_menu_item B s slug index flds =
     (save_data s (AList.update slug
        (PDict (AList.update ''menu'' (PList (xs[nat index := PDict (dict_update item vf)])) rd))
        data), Inr True)"
proof -
  from assms(3) have "rd \<noteq> []" by auto
  with assms show ?thesis
    by (simp add: update_menu_item_def load_data_eq try_update_def)
qed

lemma update_menu_item_True:
  assumes "update_menu_item B s slug index flds = (s', Inr True)"
  shows "\<exists>data rd xs item vf.
     data_file s = Doc data \<and> map_of data slug = Some (PDict rd) \<and>
     map_of rd ''menu'' = Some (PList xs) \<and> 0 \<le> index \<and> index < int (length xs) \<and>
     xs ! nat index = PDict item \<and> validate_fields B flds [] = Inr (Some vf) \<and> vf \<noteq> [] \<and>
     s' = save_data s (AList.update slug
        (PDict (AList.update ''menu'' (PList (xs[nat index := PDict (dict_update item vf)])) rd))
        data)"
  using assms
  by (auto simp: update_menu_item_def load_data_eq try_update_def
      split: sum.splits option.splits if_splits data_file.splits pyval.splits)

subsection \<open>The price check\<close>

text \<open>The check of a price consults the builtins only for a text beyond ASCII.\<close>

lemma validate_price_indep:
  assumes "\<And>t. v = PStr t \<Longrightarrow> is_ascii t"
  shows "validate_field B ''price'' v = validate_field B' ''price'' v"
  using assms by (cases v) (simp_all add: validate_field_def float_of_string_def)

lemma validate_price_abc: "validate_field B ''price'' (PStr ''abc'') = Inr None"
proof -
  have a: "is_ascii ''abc''" by code_simp
  have "validate_field B ''price'' (PStr ''abc'') = validate_field B0 ''price'' (PStr ''abc'')"
    by (rule validate_price_indep) (simp add: a)
  also have "\<dots> = Inr None" by code_simp
  finally show ?thesis .
qed

lemma validate_price_above:
  "validate_field B ''price'' (PFloat (double_of_rat 999999.99)) = Inr None"
proof -
  have "validate_field B ''price'' (PFloat (double_of_rat 999999.99))
      = validate_field B0 ''price'' (PFloat (double_of_rat 999999.99))"
    by (rule validate_price_indep) simp
  also have "\<dots> = Inr None" by code_simp
  finally show ?thesis .
qed

lemma validate_price_above_text:
  "validate_field B ''price'' (PStr ''999999.99'') = Inr None"
proof -
  have a: "is_ascii ''999999.99''" by code_simp
  have "validate_field B ''price'' (PStr ''999999.99'')
      = validate_field B0 ''price'' (PStr ''999999.99'')"
    by (rule validate_price_indep) (simp add: a)
  also have "\<dots> = Inr None" by code_simp
  finally show ?thesis .
qed

lemma validate_price_million: "validate_field B ''price'' (PInt 1000000) = Inr None"
proof -
  have "validate_field B ''price'' (PInt 1000000) = validate_field B0 ''price'' (PInt 1000000)"
    by (rule validate_price_indep) simp
  also have "\<dots> = Inr None" by code_simp
  finally show ?thesis .
qed

lemma validate_price_top:
  "validate_field B ''price'' (PInt 999999) = Inr (Some (PFloat (Fin 999999)))"
proof -
  have "validate_field B ''price'' (PInt 999999) = validate_field B0 ''price'' (PInt 999999)"
    by (rule validate_price_indep) simp
  also have "\<dots> = Inr (Some (PFloat (Fin 999999)))" by code_simp
  finally show ?thesis .
qed

lemma validate_price_rounds_to_top:
  "validate_field B ''price'' (PStr ''999999.00000000001'') = Inr (Some (PFloat (Fin 999999)))"
proof -
  have a: "is_ascii ''999999.00000000001''" by code_simp
  have "validate_field B ''price'' (PStr ''999999.00000000001'')
      = validate_field B0 ''price'' (PStr ''999999.00000000001'')"
    by (rule validate_price_indep) (simp add: a)
  also have "\<dots> = Inr (Some (PFloat (Fin 999999)))" by code_simp
  finally show ?thesis .
qed

lemma validate_field_bad_price:
  assumes "py_float B v = Inl ValueError \<or> py_float B v = Inl TypeError \<or>
     (\<exists>p. py_float B v = Inr p \<and> (float_less p (Fin 0) \<or> float_less (Fin 999999) p))"
  shows "validate_field B ''price'' v = Inr None"
  using assms by (auto simp: validate_field_def)

lemma update_menu_item_rejects:
  assumes "map_of flds ''price'' = Some v" "validate_field B ''price'' v = Inr None"
  shows "update_menu_item B s slug index flds = (s, Inr False)"
  by (simp add: update_menu_item_def validate_fields_rejects[OF assms])

subsection \<open>Reading back and saving\<close>

lemma validate_fields_all_ok:
  "validate_fields B flds acc = Inr (Some vf) \<Longrightarrow> (k, v) \<in> set flds \<Longrightarrow>
   k \<in> set VALID_ITEM_FIELDS \<Longrightarrow> \<exists>x. validate_field B k v = Inr (Some x)"
proof (induction flds arbitrary: acc)
  case Nil
  then show ?case by simp
next
  case (Cons kv flds)
  obtain k' w where kv: "kv = (k', w)" by (cases kv)
  show ?case
  proof (cases "k' \<in> set VALID_ITEM_FIELDS")
    case False
    with Cons.prems kv have r: "validate_fields B flds acc = Inr (Some vf)"
      and m: "(k, v) \<in> set flds" by auto
    from Cons.IH[OF r m Cons.prems(3)] show ?thesis .
  next
    case True
    with Cons.prems(1) kv obtain x where x: "validate_field B k' w = Inr (Some x)"
      and r: "validate_fields B flds (AList.update k' x acc) = Inr (Some vf)"
      by (auto split: sum.splits option.splits)
    show ?thesis
    proof (cases "(k, v) = (k', w)")
      case True
      with x show ?thesis by auto
    next
      case False
      with Cons.prems(2) kv have m: "(k, v) \<in> set flds" by auto
      from Cons.IH[OF r m Cons.prems(3)] show ?thesis .
    qed
  qed
qed

lemma get_restaurant_Doc:
  "data_file s = Doc data \<Longrightarrow> get_restaurant s slug = (s, Inr (dict_get data slug PNone))"
  by (simp add: get_restaurant_def load_data_eq)

lemma save_data_same: "data_file s = Doc d \<Longrightarrow> save_data s d = s"
  by (simp add: save_data_def)

lemma data_file_save_data: "data_file (save_data s d) = Doc d"
  by (simp add: save_data_def)

lemma map_of_update_same: "map_of (AList.update k v al) k = Some v"
  by (simp add: update_conv')

subsection \<open>The fields the handler passes on\<close>

lemma filter_keys_distinct:
  "distinct (map fst al) \<Longrightarrow> distinct (map fst (filter P al))"
  by (induction al) auto

lemma api_fields_available:
  assumes "distinct (map fst data)" "map_of data ''is_available'' = Some (PStr val)"
  shows "distinct (map fst (api_fields B data)) \<and>
         map_of (api_fields B data) ''is_available''
           = Some (PBool (lower B val \<in> set [''1'', ''true'', ''yes'']))"
proof -
  let ?f = "filter (\<lambda>kv. fst kv \<in> set allowed) data"
  have m: "map_of ?f ''is_available'' = Some (PStr val)"
    using assms(2) by (induction data) (auto simp: allowed_def)
  have d: "distinct (map fst ?f)" using assms(1) by (rule filter_keys_distinct)
  have e: "api_fields B data =
      AList.update ''is_available'' (PBool (lower B val \<in> set [''1'', ''true'', ''yes''])) ?f"
    unfolding api_fields_def Let_def m by simp
  show ?thesis unfolding e using d by (simp add: distinct_update update_conv')
qed

subsection \<open>The click counters\<close>

lemma bind_Inr: "bind m f = Inr y \<Longrightarrow> \<exists>x. m = Inr x \<and> f x = Inr y"
  by (cases m) (simp_all add: bind_def)

lemma dict_get_update: "dict_get (AList.update k v d) k' dflt = (if k' = k then v else dict_get d k' dflt)"
  by (simp add: dict_get_def update_conv')

lemma py_setitem_Inr:
  "py_setitem v k x = Inr v' \<Longrightarrow> \<exists>d. v = PDict d \<and> v' = PDict (AList.update k x d)"
  by (cases v) simp_all

lemma py_setitem_keeps:
  "py_setitem v k x = Inr v' \<Longrightarrow> k' \<noteq> k \<Longrightarrow> py_get v' k' dflt = py_get v k' dflt"
  by (auto dest!: py_setitem_Inr simp: dict_get_update)

lemma count_click_keeps:
  assumes "count_click B rest i = Inr rest'" "k \<noteq> ''analytics''"
  shows "py_get rest' k dflt = py_get rest k dflt"
proof -
  from assms(1) obtain has where
    c1: "bind (if has then Inr rest
           else py_setitem rest ''analytics'' (PDict [(''total'', PInt 0), (''items'', PDict [])]))
       (\<lambda>rest1.
     bind (py_getitem rest1 ''analytics'') (\<lambda>a.
     bind (py_getitem a ''total'') (\<lambda>t.
     bind (py_add1 t) (\<lambda>t'.
     bind (py_setitem a ''total'' t') (\<lambda>a1.
     bind (if i = PNone then Inr a1
           else
             (let idx = py_str B i in
              bind (py_getitem a1 ''items'') (\<lambda>items.
              bind (py_get items idx (PInt 0)) (\<lambda>c.
              bind (py_add1 c) (\<lambda>c'.
              bind (py_setitem items idx c') (\<lambda>items'.
              py_setitem a1 ''items'' items'))))))
       (\<lambda>a2. py_setitem rest1 ''analytics'' a2)))))) = Inr rest'"
    unfolding count_click_def by (blast dest: bind_Inr)
  from bind_Inr[OF c1] obtain rest1 where
    r1: "(if has then Inr rest
           else py_setitem rest ''analytics'' (PDict [(''total'', PInt 0), (''items'', PDict [])])) = Inr rest1"
    and c2: "bind (py_getitem rest1 ''analytics'') (\<lambda>a.
     bind (py_getitem a ''total'') (\<lambda>t.
     bind (py_add1 t) (\<lambda>t'.
     bind (py_setitem a ''total'' t') (\<lambda>a1.
     bind (if i = PNone then Inr a1
           else
             (let idx = py_str B i in
              bind (py_getitem a1 ''items'') (\<lambda>items.
              bind (py_get items idx (PInt 0)) (\<lambda>c.
              bind (py_add1 c) (\<lambda>c'.
              bind (py_setitem items idx c') (\<lambda>items'.
              py_setitem a1 ''items'' items'))))))
       (\<lambda>a2. py_setitem rest1 ''analytics'' a2))))) = Inr rest'"
    by blast
  from c2 obtain a2 where fin: "py_setitem rest1 ''analytics'' a2 = Inr rest'"
    by (blast dest: bind_Inr)
  have k1: "py_get rest1 k dflt = py_get rest k dflt"
  proof (cases has)
    case True
    with r1 show ?thesis by simp
  next
    case False
    with r1 have "py_setitem rest ''analytics'' (PDict [(''total'', PInt 0), (''items'', PDict [])]) = Inr rest1"
      by simp
    from py_setitem_keeps[OF this assms(2)] show ?thesis .
  qed
  from py_setitem_keeps[OF fin assms(2)] k1 show ?thesis by simp
qed

lemma get_analytics_eq:
  "get_analytics s slug =
     (s, case data_file s of
           Malformed c \<Rightarrow> Inl AttributeError
         | NoFile \<Rightarrow> Inr (PDict [(''total_clicks'', PInt 0), (''item_clicks'', PDict [])])
         | Doc data \<Rightarrow>
             bind (py_get (dict_get data slug (PDict [])) ''total_clicks'' (PInt 0))
               (\<lambda>total. bind (py_get (dict_get data slug (PDict [])) ''item_clicks'' (PDict []))
                  (\<lambda>items. Inr (PDict [(''total_clicks'', total), (''item_clicks'', items)]))))"
  by (simp add: get_analytics_def load_data_eq Let_def bind_def dict_get_def split: data_file.splits)

lemma track_click_invisible:
  "snd (get_analytics (fst (track_click B s slug i)) slug') = snd (get_analytics s slug')"
proof (cases "data_file s")
  case NoFile
  then show ?thesis by (simp add: track_click_def load_data_eq)
next
  case (Malformed c)
  then show ?thesis by (simp add: track_click_def load_data_eq)
next
  case (Doc data)
  show ?thesis
  proof (cases "map_of data slug")
    case None
    with Doc show ?thesis by (simp add: track_click_def load_data_eq)
  next
    case (Some rest)
    show ?thesis
    proof (cases "truthy rest")
      case False
      with Doc Some show ?thesis by (simp add: track_click_def load_data_eq)
    next
      case True
      show ?thesis
      proof (cases "count_click B rest i")
        case (Inl e)
        with Doc Some True show ?thesis by (simp add: track_click_def load_data_eq)
      next
        case (Inr rest')
        have f: "fst (track_click B s slug i) = save_data s (AList.update slug rest' data)"
          using Doc Some True Inr by (simp add: track_click_def load_data_eq)
        have g: "dict_get data slug (PDict []) = rest" using Some by (simp add: dict_get_def)
        have k1: "py_get rest' ''total_clicks'' (PInt 0) = py_get rest ''total_clicks'' (PInt 0)"
          by (rule count_click_keeps[OF Inr]) simp
        have k2: "py_get rest' ''item_clicks'' (PDict []) = py_get rest ''item_clicks'' (PDict [])"
          by (rule count_click_keeps[OF Inr]) simp
        show ?thesis
          unfolding f get_analytics_eq
          by (simp add: data_file_save_data Doc dict_get_update g k1 k2)
      qed
    qed
  qed
qed

lemma track_clicks_invisible:
  "snd (get_analytics (track_clicks B s slug idxs) slug') = snd (get_analytics s slug')"
  by (induction idxs arbitrary: s) (simp_all add: track_click_invisible)

subsection \<open>Creating and replacing a record\<close>

lemma dict_get_absent: "map_of d k = None \<Longrightarrow> dict_get d k dflt = dflt"
  by (simp add: dict_get_def)

lemma create_restaurant_True:
  assumes "create_restaurant B s now slug restaurant default_theme = (s', Inr True)"
  shows "\<exists>data items menu n u w t.
     valid_slug slug \<and> snd (load_data s) = Inr data \<and> map_of data slug = None \<and>
     py_iter (dict_get restaurant ''menu'' (PList [])) = Inr items \<and>
     add_menu_items B items [] = Inr menu \<and>
     s' = save_data s (AList.update slug
            (PDict [(''name'', PStr n), (''name_ur'', PStr u), (''whatsapp'', PStr w),
                    (''menu'', PList menu), (''theme'', PStr t), (''created_at'', PFloat now)])
            data)"
  using assms
  by (auto simp: create_restaurant_def load_data_eq Let_def bind_def
      split: if_splits sum.splits data_file.splits)

lemma update_absent: "map_of al k = None \<Longrightarrow> AList.update k v al = al @ [(k, v)]"
  by (induction al) (auto split: if_splits)

subsection \<open>The menu of a draft\<close>

lemma add_menu_items_filter:
  "add_menu_items B (filter is_named_dict items) menu = add_menu_items B items menu"
  by (induction items arbitrary: menu) (auto split: sum.splits)

lemma add_menu_items_result:
  "add_menu_items B items acc = Inr menu \<Longrightarrow>
   map Inr menu = map Inr acc @ map (\<lambda>it. sanitize_item B (the_dict it)) (filter is_named_dict items)"
proof (induction items arbitrary: acc)
  case Nil
  then show ?case by simp
next
  case (Cons item items)
  show ?case
  proof (cases "is_named_dict item")
    case False
    with Cons show ?thesis by simp
  next
    case True
    with Cons.prems obtain it where it: "sanitize_item B (the_dict item) = Inr it"
      and r: "add_menu_items B items (acc @ [it]) = Inr menu"
      by (auto split: sum.splits)
    from Cons.IH[OF r] True it show ?thesis by simp
  qed
qed

section \<open>Properties of the event queries\<close>

lemma group_count_set: "set (group_count xs) = (\<lambda>k. (k, count_list xs k)) ` set xs"
  by (simp add: group_count_def)

lemma group_count_keys: "map fst (group_count xs) = remdups xs"
  by (simp add: group_count_def comp_def)

lemma group_count_length: "length (group_count xs) = card (set xs)"
  by (simp add: group_count_def length_remdups_card_conv)

lemma count_list_index:
  "count_list (map ev_item_index (filter P evs)) i
     = length (filter (\<lambda>e. P e \<and> ev_item_index e = i) evs)"
  by (induction evs) auto

lemma order_desc_limit_subset: "set (order_desc_limit n gs) \<subseteq> set gs"
  using set_take_subset[of n "sort_key (\<lambda>g. - int (snd g)) gs"]
  by (simp add: order_desc_limit_def)

lemma order_desc_limit_length: "length (order_desc_limit n gs) \<le> n"
  by (simp add: order_desc_limit_def)

lemma order_desc_limit_all:
  "length gs \<le> n \<Longrightarrow> set (order_desc_limit n gs) = set gs"
  by (simp add: order_desc_limit_def)

lemma order_desc_limit_sorted:
  "sorted_wrt (\<lambda>a b. snd b \<le> snd a) (order_desc_limit n gs)"
proof -
  let ?ys = "sort_key (\<lambda>g. - int (snd g)) gs"
  have "sorted (map (\<lambda>g. - int (snd g)) ?ys)" by (rule sorted_sort_key)
  then have "sorted_wrt (\<lambda>a b. - int (snd a) \<le> - int (snd b)) ?ys"
    by (simp add: sorted_map)
  then have "sorted_wrt (\<lambda>a b. snd b \<le> snd a) ?ys"
    by (rule sorted_wrt_mono_rel[rotated]) simp
  then show ?thesis
    unfolding order_desc_limit_def by (rule sorted_wrt_take)
qed

lemma order_desc_limit_distinct:
  assumes "distinct (map fst gs)"
  shows "distinct (map fst (order_desc_limit n gs))"
proof -
  let ?ys = "sort_key (\<lambda>g. - int (snd g)) gs"
  from assms have "distinct gs" and "inj_on fst (set gs)" by (simp_all add: distinct_map)
  then have "distinct (map fst ?ys)" by (simp add: distinct_map)
  then show ?thesis
    unfolding order_desc_limit_def take_map[symmetric] by (rule distinct_take)
qed

lemma order_desc_limit_top:
  assumes "x \<in> set gs" "x \<notin> set (order_desc_limit n gs)"
  shows "length (order_desc_limit n gs) = n \<and> (\<forall>z \<in> set (order_desc_limit n gs). snd x \<le> snd z)"
proof -
  let ?ys = "sort_key (\<lambda>g. - int (snd g)) gs"
  have split: "?ys = take n ?ys @ drop n ?ys" by simp
  from assms(1) have "x \<in> set ?ys" by simp
  then have "x \<in> set (take n ?ys) \<or> x \<in> set (drop n ?ys)"
    by (metis split set_append Un_iff)
  with assms(2) have xd: "x \<in> set (drop n ?ys)" by (simp add: order_desc_limit_def)
  then have "drop n ?ys \<noteq> []" by auto
  then have "n < length ?ys" by simp
  then have len: "length (order_desc_limit n gs) = n" by (simp add: order_desc_limit_def)
  have "sorted (map (\<lambda>g. - int (snd g)) ?ys)" by (rule sorted_sort_key)
  then have "sorted_wrt (\<lambda>a b. - int (snd a) \<le> - int (snd b)) (take n ?ys @ drop n ?ys)"
    by (simp add: sorted_map)
  then have "\<forall>z \<in> set (take n ?ys). \<forall>w \<in> set (drop n ?ys). - int (snd z) \<le> - int (snd w)"
    unfolding sorted_wrt_append by blast
  with xd have "\<forall>z \<in> set (take n ?ys). snd x \<le> snd z" by fastforce
  with len show ?thesis by (simp add: order_desc_limit_def)
qed

lemma first_of_month_ok:
  "1 \<le> y \<Longrightarrow> y \<le> 9999 \<Longrightarrow> 1 \<le> m \<Longrightarrow> m \<le> 12 \<Longrightarrow>
   first_of_month y m = Inr \<lparr>dt_year = y, dt_month = m, dt_day = 1, dt_hour = 0, dt_minute = 0,
                 dt_second = 0, dt_microsecond = 0\<rparr>"
  by (simp add: first_of_month_def)

subsection \<open>The monthly window and the leading groups\<close>

lemma in_window_fun:
  "in_window start endt slug etype =
     (\<lambda>e. ev_slug e = slug \<and> ev_type e = etype \<and> dt_key start \<le> dt_key (ev_ts e)
          \<and> dt_key (ev_ts e) < dt_key endt)"
  by (rule ext) (simp add: in_window_def)

lemma since_window_fun:
  "since_window since slug etype =
     (\<lambda>e. ev_slug e = slug \<and> ev_type e = etype \<and> dt_key since \<le> dt_key (ev_ts e))"
  by (rule ext) (simp add: since_window_def)

lemma get_monthly_summary_eq:
  assumes "1 \<le> y" "y \<le> 9999" "1 \<le> m" "m \<le> 12" "y < 9999 \<or> m < 12"
  shows "get_monthly_summary evs now slug (Some y) (Some m) =
     Inr \<lparr>sm_year = y, sm_month = m,
          scans = length (filter (\<lambda>e. ev_slug e = slug \<and> ev_type e = ''scan''
                    \<and> [y, m, 1, 0, 0, 0, 0] \<le> dt_key (ev_ts e)
                    \<and> dt_key (ev_ts e) < (if m = 12 then [y + 1, 1, 1, 0, 0, 0, 0]
                                           else [y, m + 1, 1, 0, 0, 0, 0])) evs),
          clicks = length (filter (\<lambda>e. ev_slug e = slug \<and> ev_type e = ''click''
                    \<and> [y, m, 1, 0, 0, 0, 0] \<le> dt_key (ev_ts e)
                    \<and> dt_key (ev_ts e) < (if m = 12 then [y + 1, 1, 1, 0, 0, 0, 0]
                                           else [y, m + 1, 1, 0, 0, 0, 0])) evs),
          top_items = order_desc_limit 10 (group_count (map ev_item_index
                  (filter (\<lambda>e. ev_slug e = slug \<and> ev_type e = ''click''
                    \<and> [y, m, 1, 0, 0, 0, 0] \<le> dt_key (ev_ts e)
                    \<and> dt_key (ev_ts e) < (if m = 12 then [y + 1, 1, 1, 0, 0, 0, 0]
                                           else [y, m + 1, 1, 0, 0, 0, 0])) evs)))\<rparr>"
proof (cases "m = 12")
  case True
  with assms show ?thesis
    by (simp add: get_monthly_summary_def first_of_month_def bind_def in_window_fun dt_key_def)
next
  case False
  with assms show ?thesis
    by (simp add: get_monthly_summary_def first_of_month_def bind_def in_window_fun dt_key_def)
qed

lemma top_of_groups:
  fixes xs :: "'a list" and n :: nat
  defines "t \<equiv> order_desc_limit n (group_count xs)"
  shows "length t \<le> n"
    and "sorted_wrt (\<lambda>a b. snd b \<le> snd a) t"
    and "distinct (map fst t)"
    and "\<And>i c. (i, c) \<in> set t \<Longrightarrow> 0 < c \<and> c = count_list xs i"
    and "\<And>i. 0 < count_list xs i \<Longrightarrow> i \<notin> fst ` set t \<Longrightarrow>
           length t = n \<and> (\<forall>z \<in> set t. count_list xs i \<le> snd z)"
    and "\<And>i. 0 < count_list xs i \<Longrightarrow> card (set xs) \<le> n \<Longrightarrow> (i, count_list xs i) \<in> set t"
proof -
  show "length t \<le> n" unfolding t_def by (rule order_desc_limit_length)
  show "sorted_wrt (\<lambda>a b. snd b \<le> snd a) t" unfolding t_def by (rule order_desc_limit_sorted)
  show "distinct (map fst t)" unfolding t_def
    by (rule order_desc_limit_distinct) (simp add: group_count_keys)
next
  fix i c assume "(i, c) \<in> set t"
  then have "(i, c) \<in> set (group_count xs)"
    unfolding t_def using order_desc_limit_subset by blast
  then have "i \<in> set xs" and c: "c = count_list xs i" by (auto simp: group_count_set)
  then have "count_list xs i \<noteq> 0" by (simp add: count_list_0_iff)
  with c show "0 < c \<and> c = count_list xs i" by simp
next
  fix i assume p: "0 < count_list xs i" and n: "i \<notin> fst ` set t"
  from p have "i \<in> set xs" using count_list_0_iff[of xs i] by auto
  then have g: "(i, count_list xs i) \<in> set (group_count xs)" by (simp add: group_count_set)
  from n have "(i, count_list xs i) \<notin> set t" by force
  from order_desc_limit_top[OF g this[unfolded t_def]]
  show "length t = n \<and> (\<forall>z \<in> set t. count_list xs i \<le> snd z)" by (simp add: t_def)
next
  fix i assume p: "0 < count_list xs i" and c: "card (set xs) \<le> n"
  from p have "i \<in> set xs" using count_list_0_iff[of xs i] by auto
  then have g: "(i, count_list xs i) \<in> set (group_count xs)" by (simp add: group_count_set)
  from c have "length (group_count xs) \<le> n" by (simp add: group_count_length)
  from order_desc_limit_all[OF this] g show "(i, count_list xs i) \<in> set t" by (simp add: t_def)
qed

lemma distinct_keys_filter_le1:
  "distinct (map fst xs) \<Longrightarrow> length (filter (\<lambda>g. fst g = k) xs) \<le> 1"
proof (induction xs)
  case Nil
  then show ?case by simp
next
  case (Cons x xs)
  show ?case
  proof (cases "fst x = k")
    case True
    with Cons.prems have "k \<notin> fst ` set xs" by auto
    then have "filter (\<lambda>g. fst g = k) xs = []" by (auto simp: filter_empty_conv)
    with True show ?thesis by simp
  next
    case False
    with Cons show ?thesis by simp
  qed
qed

subsection \<open>The merged entry\<close>

lemma update_menu_item_merge_core:
  assumes "update_menu_item B s slug index flds = (s', Inr True)"
    and "distinct (map fst flds)"
  shows "\<exists>rd xs item item'.
      get_restaurant s slug = (s, Inr (PDict rd)) \<and> map_of rd ''menu'' = Some (PList xs) \<and>
      0 \<le> index \<and> nat index < length xs \<and> xs ! nat index = PDict item \<and>
      get_restaurant s' slug =
        (s', Inr (PDict (AList.update ''menu'' (PList (xs[nat index := PDict item'])) rd))) \<and>
      (\<forall>k v. map_of flds k = Some v \<and> k \<in> set VALID_ITEM_FIELDS \<longrightarrow>
             map_of item' k \<noteq> None \<and> validate_field B k v = Inr (map_of item' k)) \<and>
      (\<forall>k. map_of flds k = None \<or> k \<notin> set VALID_ITEM_FIELDS \<longrightarrow> map_of item' k = map_of item k) \<and>
      update_menu_item B s' slug index flds = (s', Inr True)"
proof -
  from update_menu_item_True[OF assms(1)] obtain data rd xs item vf where
    df: "data_file s = Doc data" and ms: "map_of data slug = Some (PDict rd)" and
    mm: "map_of rd ''menu'' = Some (PList xs)" and i0: "0 \<le> index" and
    il: "index < int (length xs)" and xi: "xs ! nat index = PDict item" and
    vf: "validate_fields B flds [] = Inr (Some vf)" and ne: "vf \<noteq> []" and
    s': "s' = save_data s (AList.update slug
        (PDict (AList.update ''menu'' (PList (xs[nat index := PDict (dict_update item vf)])) rd))
        data)"
    by blast
  define item' where "item' = dict_update item vf"
  define xs' where "xs' = xs[nat index := PDict item']"
  define rd' where "rd' = AList.update ''menu'' (PList xs') rd"
  define data' where "data' = AList.update slug (PDict rd') data"
  have s'eq: "s' = save_data s data'"
    by (simp add: s' data'_def rd'_def xs'_def item'_def)
  have dvf: "distinct (map fst vf)"
    using validate_fields_distinct[OF vf] by simp
  have lk: "\<And>k. map_of item' k = (case map_of vf k of None \<Rightarrow> map_of item k | Some v \<Rightarrow> Some v)"
    unfolding item'_def by (rule dict_update_lookup[OF dvf])
  have lv: "\<And>k. map_of vf k =
     (case map_of flds k of
        None \<Rightarrow> None
      | Some v \<Rightarrow> if k \<in> set VALID_ITEM_FIELDS
                  then (case validate_field B k v of Inr (Some x) \<Rightarrow> Some x | _ \<Rightarrow> None)
                  else None)"
    using validate_fields_lookup[OF vf assms(2)] by (simp split: option.splits)
  have g1: "get_restaurant s slug = (s, Inr (PDict rd))"
    by (simp add: get_restaurant_Doc[OF df] dict_get_def ms)
  have il': "nat index < length xs" using i0 il by simp
  have df': "data_file s' = Doc data'" by (simp add: s'eq data_file_save_data)
  have ms': "map_of data' slug = Some (PDict rd')" by (simp add: data'_def map_of_update_same)
  have mm': "map_of rd' ''menu'' = Some (PList xs')" by (simp add: rd'_def map_of_update_same)
  have g2: "get_restaurant s' slug = (s', Inr (PDict rd'))"
    by (simp add: get_restaurant_Doc[OF df'] dict_get_def ms')
  have a: "\<forall>k v. map_of flds k = Some v \<and> k \<in> set VALID_ITEM_FIELDS \<longrightarrow>
             map_of item' k \<noteq> None \<and> validate_field B k v = Inr (map_of item' k)"
  proof (intro allI impI)
    fix k v assume h: "map_of flds k = Some v \<and> k \<in> set VALID_ITEM_FIELDS"
    then have "(k, v) \<in> set flds" by (auto dest: map_of_SomeD)
    from validate_fields_all_ok[OF vf this] h obtain x where x: "validate_field B k v = Inr (Some x)"
      by blast
    from h x have "map_of vf k = Some x" by (simp add: lv)
    then have "map_of item' k = Some x" by (simp add: lk)
    with x show "map_of item' k \<noteq> None \<and> validate_field B k v = Inr (map_of item' k)" by simp
  qed
  have b: "\<forall>k. map_of flds k = None \<or> k \<notin> set VALID_ITEM_FIELDS \<longrightarrow> map_of item' k = map_of item k"
  proof (intro allI impI)
    fix k assume "map_of flds k = None \<or> k \<notin> set VALID_ITEM_FIELDS"
    then have "map_of vf k = None" by (auto simp: lv split: option.splits)
    then show "map_of item' k = map_of item k" by (simp add: lk)
  qed
  have il2: "index < int (length xs')" using il by (simp add: xs'_def)
  have xi': "xs' ! nat index = PDict item'" using il' by (simp add: xs'_def)
  have idem: "dict_update item' vf = item'"
    unfolding item'_def by (rule dict_update_idem[OF dvf])
  have u1: "xs'[nat index := PDict item'] = xs'" by (simp add: xs'_def)
  have u2: "AList.update ''menu'' (PList xs') rd' = rd'" using mm' by (rule update_triv)
  have u3: "AList.update slug (PDict rd') data' = data'" using ms' by (rule update_triv)
  have again: "update_menu_item B s' slug index flds = (s', Inr True)"
    using update_menu_item_success[OF df' ms' mm' i0 il2 xi' vf ne]
    by (simp add: idem u1 u2 u3 save_data_same[OF df'])
  from g1 mm i0 il' xi g2 a b again show ?thesis
    unfolding rd'_def xs'_def by blast
qed

lemma update_menu_item_stored:
  assumes "update_menu_item B s slug index flds = (s', Inr True)" "distinct (map fst flds)"
    "map_of flds k = Some v" "k \<in> set VALID_ITEM_FIELDS"
  shows "\<exists>rd xs item x. get_restaurant s' slug = (s', Inr (PDict rd))
     \<and> map_of rd ''menu'' = Some (PList xs) \<and> 0 \<le> index \<and> nat index < length xs
     \<and> xs ! nat index = PDict item \<and> validate_field B k v = Inr (Some x)
     \<and> map_of item k = Some x"
proof -
  from update_menu_item_merge_core[OF assms(1,2)] obtain rd xs item item' where
    g: "get_restaurant s' slug =
        (s', Inr (PDict (AList.update ''menu'' (PList (xs[nat index := PDict item'])) rd)))"
    and i0: "0 \<le> index" and il: "nat index < length xs"
    and a: "\<forall>k v. map_of flds k = Some v \<and> k \<in> set VALID_ITEM_FIELDS \<longrightarrow>
             map_of item' k \<noteq> None \<and> validate_field B k v = Inr (map_of item' k)"
    by blast
  from a assms(3,4) have n: "map_of item' k \<noteq> None"
    and v: "validate_field B k v = Inr (map_of item' k)" by blast+
  from n obtain x where x: "map_of item' k = Some x" by blast
  have m: "map_of (AList.update ''menu'' (PList (xs[nat index := PDict item'])) rd) ''menu''
      = Some (PList (xs[nat index := PDict item']))"
    by (rule map_of_update_same)
  have l: "nat index < length (xs[nat index := PDict item'])" using il by simp
  have e: "(xs[nat index := PDict item']) ! nat index = PDict item'" using il by simp
  from g m i0 l e v x show ?thesis by (metis (no_types))
qed

lemma validate_field_bool:
  "k = ''is_available'' \<or> k = ''is_chefs_special'' \<Longrightarrow>
   validate_field B k v = Inr (Some (PBool (truthy v)))"
  by (auto simp: validate_field_def)

lemma map_of_filter_key:
  "P k \<Longrightarrow> map_of (filter (\<lambda>kv. P (fst kv)) al) k = map_of al k"
  by (induction al) auto

lemma api_fields_distinct:
  assumes "distinct (map fst data)"
  shows "distinct (map fst (api_fields B data))"
proof -
  let ?f = "filter (\<lambda>kv. fst kv \<in> set allowed) data"
  have d: "distinct (map fst ?f)" using assms by (rule filter_keys_distinct)
  then show ?thesis
    by (auto simp: api_fields_def Let_def distinct_update split: option.splits pyval.splits)
qed

lemma api_fields_other:
  assumes "k \<in> set allowed" "k \<noteq> ''is_available''"
  shows "map_of (api_fields B data) k = map_of data k"
proof -
  let ?f = "filter (\<lambda>kv. fst kv \<in> set allowed) data"
  have "map_of ?f k = map_of data k"
    using map_of_filter_key[of "\<lambda>k. k \<in> set allowed" k data] assms(1) by simp
  with assms(2) show ?thesis
    by (auto simp: api_fields_def Let_def update_conv' split: option.splits pyval.splits)
qed

lemma api_update_item_200:
  "api_update_item B s slug index data = (s', Inr 200) \<Longrightarrow>
   update_menu_item B s slug index (api_fields B data) = (s', Inr True)"
  by (auto simp: api_update_item_def split: prod.splits sum.splits if_splits)

text \<open>Entries that are no dict or have no \<open>name\<close> leave no trace in the result.\<close>

lemma create_restaurant_skips_unnamed:
  assumes "map_of restaurant ''menu'' = Some (PList items)"
  shows "create_restaurant B s now slug restaurant default_theme
           = create_restaurant B s now slug
               (AList.update ''menu'' (PList (filter is_named_dict items)) restaurant) default_theme
       \<and> (\<forall>s'. create_restaurant B s now slug restaurant default_theme = (s', Inr True) \<longrightarrow>
             (\<exists>rd menu. get_restaurant s' slug = (s', Inr (PDict rd))
                \<and> map_of rd ''menu'' = Some (PList menu)
                \<and> map Inr menu
                   = map (\<lambda>it. sanitize_item B (the_dict it)) (filter is_named_dict items)))"
proof (intro conjI allI impI)
  have m: "dict_get restaurant ''menu'' (PList []) = PList items"
    using assms by (simp add: dict_get_def)
  let ?r = "AList.update ''menu'' (PList (filter is_named_dict items)) restaurant"
  have o1: "dict_get ?r ''name'' (PStr slug) = dict_get restaurant ''name'' (PStr slug)"
    by (simp add: dict_get_update)
  have o2: "dict_get ?r ''name_ur'' (PStr []) = dict_get restaurant ''name_ur'' (PStr [])"
    by (simp add: dict_get_update)
  have o3: "dict_get ?r ''whatsapp'' (PStr []) = dict_get restaurant ''whatsapp'' (PStr [])"
    by (simp add: dict_get_update)
  have o4: "bind (py_iter (dict_get ?r ''menu'' (PList []))) (\<lambda>items. add_menu_items B items [])
      = bind (py_iter (dict_get restaurant ''menu'' (PList []))) (\<lambda>items. add_menu_items B items [])"
    by (simp add: dict_get_update m bind_def add_menu_items_filter)
  show "create_restaurant B s now slug restaurant default_theme
           = create_restaurant B s now slug ?r default_theme"
    unfolding create_restaurant_def o1 o2 o3 o4 by (rule refl)
next
  fix s' assume c: "create_restaurant B s now slug restaurant default_theme = (s', Inr True)"
  have m: "dict_get restaurant ''menu'' (PList []) = PList items"
    using assms by (simp add: dict_get_def)
  from create_restaurant_True[OF c] obtain data its menu n u w t where
    i: "py_iter (dict_get restaurant ''menu'' (PList [])) = Inr its" and
    a: "add_menu_items B its [] = Inr menu" and
    s': "s' = save_data s (AList.update slug
            (PDict [(''name'', PStr n), (''name_ur'', PStr u), (''whatsapp'', PStr w),
                    (''menu'', PList menu), (''theme'', PStr t), (''created_at'', PFloat now)])
            data)"
    by blast
  from i m have "its = items" by simp
  with a have r: "map Inr menu
       = map (\<lambda>it. sanitize_item B (the_dict it)) (filter is_named_dict items)"
    using add_menu_items_result[of B items "[]" menu] by simp
  have g: "get_restaurant s' slug = (s', Inr (PDict [(''name'', PStr n), (''name_ur'', PStr u),
       (''whatsapp'', PStr w), (''menu'', PList menu), (''theme'', PStr t),
       (''created_at'', PFloat now)]))"
    unfolding s' by (simp add: get_restaurant_Doc[OF data_file_save_data] dict_get_update)
  have l: "map_of [(''name'', PStr n), (''name_ur'', PStr u),
       (''whatsapp'', PStr w), (''menu'', PList menu), (''theme'', PStr t),
       (''created_at'', PFloat now)] ''menu'' = Some (PList menu)" by simp
  from g l r show "\<exists>rd menu. get_restaurant s' slug = (s', Inr (PDict rd))
                \<and> map_of rd ''menu'' = Some (PList menu)
                \<and> map Inr menu
                   = map (\<lambda>it. sanitize_item B (the_dict it)) (filter is_named_dict items)"
    by blast
qed

section \<open>Claims\<close>

text \<open>
  C1. The claim: when the persisted document is malformed, \<open>load\<close> does not raise, moves
  the corrupt data aside and returns the empty mapping. The code raises instead: with a
  malformed file, \<open>load_data\<close> ends in \<open>AttributeError\<close> and the file system is as it
  was, the corrupt file still in place and no side file written.
\<close>

theorem load_data_corrupt_raises:
  "load_data \<lparr>data_file = Malformed ''{'', side_files = []\<rparr>
     = (\<lparr>data_file = Malformed ''{'', side_files = []\<rparr>, Inl AttributeError)"
  by (simp add: load_data_def os_time_def)

text \<open>
  C2. The claim: after a successful \<open>create_restaurant\<close>, every menu entry read back
  has a price of at least 0. \<open>create_restaurant\<close> stores \<open>float(item.get('price', 0))\<close>
  without the range check that \<open>update_menu_item\<close> makes: a draft entry with price
  \<open>-5\<close> is created and read back with price \<open>-5.0\<close>.
\<close>

theorem create_restaurant_stores_negative_price:
  "create_restaurant B0 empty_store (Fin 0) ''cafe''
      [(''name'', PStr ''Cafe''),
       (''menu'', PList [PDict [(''name'', PStr ''Tea''), (''price'', PInt (- 5)),
                                (''category'', PStr ''drinks'')]])]
      ''default''
     = (store_with (AList.update ''price'' (PFloat (Fin (- 5))) tea), Inr True)
   \<and> get_restaurant (store_with (AList.update ''price'' (PFloat (Fin (- 5))) tea)) ''cafe''
     = (store_with (AList.update ''price'' (PFloat (Fin (- 5))) tea),
        Inr (PDict (cafe (AList.update ''price'' (PFloat (Fin (- 5))) tea))))"
  by code_simp

text \<open>
  C3. As the code has it: for an existing slug and a valid index, \<open>update_menu_item\<close>
  returns \<open>False\<close> and leaves the store as it was whenever the patch has a price that
  \<open>float\<close> rejects (\<open>"abc"\<close>) or whose float is below 0 or above 999999. The bound is
  999999 itself: the price 999999 is accepted and stored, 999999.99 (as a number and as
  text) and 1000000 are rejected.
\<close>

theorem update_menu_item_price_range:
  assumes "data_file s = Doc data" "map_of data slug = Some (PDict rd)"
    "map_of rd ''menu'' = Some (PList xs)" "0 \<le> index" "index < int (length xs)"
    "xs ! nat index = PDict item"
  shows "(\<forall>flds v. map_of flds ''price'' = Some v \<and>
            (py_float B v = Inl ValueError \<or> py_float B v = Inl TypeError \<or>
             (\<exists>p. py_float B v = Inr p \<and> (float_less p (Fin 0) \<or> float_less (Fin 999999) p)))
          \<longrightarrow> update_menu_item B s slug index flds = (s, Inr False))
     \<and> update_menu_item B s slug index [(''price'', PStr ''abc'')] = (s, Inr False)
     \<and> update_menu_item B s slug index [(''price'', PFloat (double_of_rat 999999.99))]
         = (s, Inr False)
     \<and> update_menu_item B s slug index [(''price'', PStr ''999999.99'')] = (s, Inr False)
     \<and> update_menu_item B s slug index [(''price'', PInt 1000000)] = (s, Inr False)
     \<and> update_menu_item B s slug index [(''price'', PInt 999999)] =
         (save_data s (AList.update slug
            (PDict (AList.update ''menu''
               (PList (xs[nat index := PDict (AList.update ''price'' (PFloat (Fin 999999)) item)])) rd))
            data), Inr True)"
proof -
  have a: "\<forall>flds v. map_of flds ''price'' = Some v \<and>
            (py_float B v = Inl ValueError \<or> py_float B v = Inl TypeError \<or>
             (\<exists>p. py_float B v = Inr p \<and> (float_less p (Fin 0) \<or> float_less (Fin 999999) p)))
          \<longrightarrow> update_menu_item B s slug index flds = (s, Inr False)"
    using update_menu_item_rejects validate_field_bad_price by blast
  have b: "update_menu_item B s slug index [(''price'', PStr ''abc'')] = (s, Inr False)"
    by (rule update_menu_item_rejects[OF _ validate_price_abc]) simp
  have c: "update_menu_item B s slug index [(''price'', PFloat (double_of_rat 999999.99))]
      = (s, Inr False)"
    by (rule update_menu_item_rejects[OF _ validate_price_above]) simp
  have c': "update_menu_item B s slug index [(''price'', PStr ''999999.99'')] = (s, Inr False)"
    by (rule update_menu_item_rejects[OF _ validate_price_above_text]) simp
  have d: "update_menu_item B s slug index [(''price'', PInt 1000000)] = (s, Inr False)"
    by (rule update_menu_item_rejects[OF _ validate_price_million]) simp
  have v: "validate_fields B [(''price'', PInt 999999)] [] = Inr (Some [(''price'', PFloat (Fin 999999))])"
    by (simp add: VALID_ITEM_FIELDS_def validate_price_top)
  have e: "update_menu_item B s slug index [(''price'', PInt 999999)] =
         (save_data s (AList.update slug
            (PDict (AList.update ''menu''
               (PList (xs[nat index := PDict (AList.update ''price'' (PFloat (Fin 999999)) item)])) rd))
            data), Inr True)"
    using update_menu_item_success[OF assms v] by (simp add: dict_update_Cons dict_update_Nil)
  from a b c c' d e show ?thesis by blast
qed

text \<open>
  The theorem at the store with one restaurant, for a negative price, \<open>"abc"\<close> and
  999999; and a price text just above the bound that \<open>float\<close> rounds to 999999.0, which
  is accepted.
\<close>

theorem update_menu_item_price_range_witness:
  "data_file (store_with tea) = Doc [(''cafe'', PDict (cafe tea))]
   \<and> map_of [(''cafe'', PDict (cafe tea))] ''cafe'' = Some (PDict (cafe tea))
   \<and> map_of (cafe tea) ''menu'' = Some (PList [PDict tea])
   \<and> (0::int) \<le> 0 \<and> (0::int) < int (length [PDict tea]) \<and> [PDict tea] ! nat 0 = PDict tea
   \<and> update_menu_item B0 (store_with tea) ''cafe'' 0 [(''name'', PStr ''Chai''), (''price'', PInt (- 1))]
        = (store_with tea, Inr False)
   \<and> update_menu_item B0 (store_with tea) ''cafe'' 0 [(''price'', PStr ''abc'')]
        = (store_with tea, Inr False)
   \<and> update_menu_item B0 (store_with tea) ''cafe'' 0 [(''price'', PInt 999999)]
        = (store_with (AList.update ''price'' (PFloat (Fin 999999)) tea), Inr True)
   \<and> update_menu_item B0 (store_with tea) ''cafe'' 0 [(''price'', PStr ''999999.00000000001'')]
        = (store_with (AList.update ''price'' (PFloat (Fin 999999)) tea), Inr True)"
proof -
  have h1: "data_file (store_with tea) = Doc [(''cafe'', PDict (cafe tea))]"
    by (simp add: store_with_def)
  have h2: "map_of [(''cafe'', PDict (cafe tea))] ''cafe'' = Some (PDict (cafe tea))" by simp
  have h3: "map_of (cafe tea) ''menu'' = Some (PList [PDict tea])" by (simp add: cafe_def)
  have h4: "(0::int) \<le> 0" by simp
  have h5: "(0::int) < int (length [PDict tea])" by simp
  have h6: "[PDict tea] ! nat 0 = PDict tea" by simp
  note t = update_menu_item_price_range[OF h1 h2 h3 h4 h5 h6, of B0]
  have p: "py_float B0 (PInt (- 1)) = Inr (Fin (- 1))" by code_simp
  from t have "map_of [(''name'', PStr ''Chai''), (''price'', PInt (- 1))] ''price'' = Some (PInt (- 1)) \<and>
            (py_float B0 (PInt (- 1)) = Inl ValueError \<or> py_float B0 (PInt (- 1)) = Inl TypeError \<or>
             (\<exists>p. py_float B0 (PInt (- 1)) = Inr p \<and> (float_less p (Fin 0) \<or> float_less (Fin 999999) p)))
          \<longrightarrow> update_menu_item B0 (store_with tea) ''cafe'' 0 [(''name'', PStr ''Chai''), (''price'', PInt (- 1))] = (store_with tea, Inr False)"
    by blast
  then have c1: "update_menu_item B0 (store_with tea) ''cafe'' 0 [(''name'', PStr ''Chai''), (''price'', PInt (- 1))] = (store_with tea, Inr False)"
    unfolding p by simp
  from t have c2: "update_menu_item B0 (store_with tea) ''cafe'' 0 [(''price'', PStr ''abc'')]
        = (store_with tea, Inr False)" by blast
  from t have "update_menu_item B0 (store_with tea) ''cafe'' 0 [(''price'', PInt 999999)] =
         (save_data (store_with tea) (AList.update ''cafe''
            (PDict (AList.update ''menu''
               (PList ([PDict tea][nat 0 := PDict (AList.update ''price'' (PFloat (Fin 999999)) tea)])) (cafe tea)))
            [(''cafe'', PDict (cafe tea))]), Inr True)" by blast
  then have c3: "update_menu_item B0 (store_with tea) ''cafe'' 0 [(''price'', PInt 999999)]
        = (store_with (AList.update ''price'' (PFloat (Fin 999999)) tea), Inr True)"
    by (simp add: store_with_def save_data_def cafe_def)
  have c4: "update_menu_item B0 (store_with tea) ''cafe'' 0 [(''price'', PStr ''999999.00000000001'')]
        = (store_with (AList.update ''price'' (PFloat (Fin 999999)) tea), Inr True)"
    by code_simp
  from h1 h2 h3 h4 h5 h6 c1 c2 c3 c4 show ?thesis by blast
qed

text \<open>
  The claim as stated has 999999.99 accepted; the guard \<open>price > 999999\<close> rejects it and
  the stored price stays 50.
\<close>

theorem price_just_above_limit_rejected:
  "update_menu_item B0 (store_with tea) ''cafe'' 0 [(''price'', PFloat (double_of_rat 999999.99))]
     = (store_with tea, Inr False)"
  by code_simp

text \<open>
  C4. As the code has it: \<open>update_menu_item\<close> stores \<open>bool(v)\<close> for both boolean fields,
  so a string under \<open>is_available\<close> or \<open>is_chefs_special\<close> is stored as true exactly
  when it is not empty. The handler \<open>api_update_item\<close> replaces a string under
  \<open>is_available\<close> before the call: when it answers 200, the stored availability is true
  exactly when the lower-cased string is \<open>"1"\<close>, \<open>"true"\<close> or \<open>"yes"\<close>, and a string
  under \<open>is_chefs_special\<close> is stored as true exactly when it is not empty.
\<close>

theorem boolean_fields_coercion:
  assumes "distinct (map fst data)"
  shows
    "(\<forall>k val s'. (k = ''is_available'' \<or> k = ''is_chefs_special'')
          \<and> map_of data k = Some (PStr val)
          \<and> update_menu_item B s slug index data = (s', Inr True)
        \<longrightarrow> (\<exists>rd xs item. get_restaurant s' slug = (s', Inr (PDict rd))
               \<and> map_of rd ''menu'' = Some (PList xs) \<and> 0 \<le> index \<and> nat index < length xs
               \<and> xs ! nat index = PDict item
               \<and> map_of item k = Some (PBool (val \<noteq> []))))
     \<and> (\<forall>val s'. map_of data ''is_available'' = Some (PStr val)
          \<and> api_update_item B s slug index data = (s', Inr 200)
        \<longrightarrow> (\<exists>rd xs item. get_restaurant s' slug = (s', Inr (PDict rd))
               \<and> map_of rd ''menu'' = Some (PList xs) \<and> 0 \<le> index \<and> nat index < length xs
               \<and> xs ! nat index = PDict item
               \<and> map_of item ''is_available''
                   = Some (PBool (lower B val \<in> set [''1'', ''true'', ''yes'']))))
     \<and> (\<forall>val s'. map_of data ''is_chefs_special'' = Some (PStr val)
          \<and> api_update_item B s slug index data = (s', Inr 200)
        \<longrightarrow> (\<exists>rd xs item. get_restaurant s' slug = (s', Inr (PDict rd))
               \<and> map_of rd ''menu'' = Some (PList xs) \<and> 0 \<le> index \<and> nat index < length xs
               \<and> xs ! nat index = PDict item
               \<and> map_of item ''is_chefs_special'' = Some (PBool (val \<noteq> []))))"
proof (intro conjI allI impI)
  fix k val s'
  assume h: "(k = ''is_available'' \<or> k = ''is_chefs_special'')
          \<and> map_of data k = Some (PStr val)
          \<and> update_menu_item B s slug index data = (s', Inr True)"
  then have kk: "k = ''is_available'' \<or> k = ''is_chefs_special''"
    and m: "map_of data k = Some (PStr val)"
    and u: "update_menu_item B s slug index data = (s', Inr True)" by blast+
  from kk have kv: "k \<in> set VALID_ITEM_FIELDS" by (auto simp: VALID_ITEM_FIELDS_def)
  from update_menu_item_stored[OF u assms m kv] obtain rd xs item x where
    r: "get_restaurant s' slug = (s', Inr (PDict rd))" "map_of rd ''menu'' = Some (PList xs)"
       "0 \<le> index" "nat index < length xs" "xs ! nat index = PDict item"
    and v: "validate_field B k (PStr val) = Inr (Some x)" and x: "map_of item k = Some x"
    by blast
  from v validate_field_bool[OF kk, of B "PStr val"] have "x = PBool (val \<noteq> [])" by simp
  with r x show "\<exists>rd xs item. get_restaurant s' slug = (s', Inr (PDict rd))
               \<and> map_of rd ''menu'' = Some (PList xs) \<and> 0 \<le> index \<and> nat index < length xs
               \<and> xs ! nat index = PDict item
               \<and> map_of item k = Some (PBool (val \<noteq> []))"
    by blast
next
  fix val s'
  assume h: "map_of data ''is_available'' = Some (PStr val)
          \<and> api_update_item B s slug index data = (s', Inr 200)"
  then have m: "map_of data ''is_available'' = Some (PStr val)"
    and u: "update_menu_item B s slug index (api_fields B data) = (s', Inr True)"
    by (blast intro: api_update_item_200)+
  from api_fields_available[OF assms m] have d: "distinct (map fst (api_fields B data))"
    and am: "map_of (api_fields B data) ''is_available''
           = Some (PBool (lower B val \<in> set [''1'', ''true'', ''yes'']))" by blast+
  have kv: "''is_available'' \<in> set VALID_ITEM_FIELDS" by (simp add: VALID_ITEM_FIELDS_def)
  from update_menu_item_stored[OF u d am kv] obtain rd xs item x where
    r: "get_restaurant s' slug = (s', Inr (PDict rd))" "map_of rd ''menu'' = Some (PList xs)"
       "0 \<le> index" "nat index < length xs" "xs ! nat index = PDict item"
    and v: "validate_field B ''is_available''
              (PBool (lower B val \<in> set [''1'', ''true'', ''yes''])) = Inr (Some x)"
    and x: "map_of item ''is_available'' = Some x"
    by blast
  from v have "x = PBool (lower B val \<in> set [''1'', ''true'', ''yes''])"
    by (simp add: validate_field_bool)
  with r x show "\<exists>rd xs item. get_restaurant s' slug = (s', Inr (PDict rd))
               \<and> map_of rd ''menu'' = Some (PList xs) \<and> 0 \<le> index \<and> nat index < length xs
               \<and> xs ! nat index = PDict item
               \<and> map_of item ''is_available''
                   = Some (PBool (lower B val \<in> set [''1'', ''true'', ''yes'']))"
    by blast
next
  fix val s'
  assume h: "map_of data ''is_chefs_special'' = Some (PStr val)
          \<and> api_update_item B s slug index data = (s', Inr 200)"
  then have m: "map_of data ''is_chefs_special'' = Some (PStr val)"
    and u: "update_menu_item B s slug index (api_fields B data) = (s', Inr True)"
    by (blast intro: api_update_item_200)+
  have d: "distinct (map fst (api_fields B data))" using assms by (rule api_fields_distinct)
  have am: "map_of (api_fields B data) ''is_chefs_special'' = Some (PStr val)"
    using api_fields_other[of "''is_chefs_special''" B data] m by (simp add: allowed_def)
  have kv: "''is_chefs_special'' \<in> set VALID_ITEM_FIELDS" by (simp add: VALID_ITEM_FIELDS_def)
  from update_menu_item_stored[OF u d am kv] obtain rd xs item x where
    r: "get_restaurant s' slug = (s', Inr (PDict rd))" "map_of rd ''menu'' = Some (PList xs)"
       "0 \<le> index" "nat index < length xs" "xs ! nat index = PDict item"
    and v: "validate_field B ''is_chefs_special'' (PStr val) = Inr (Some x)"
    and x: "map_of item ''is_chefs_special'' = Some x"
    by blast
  from v have "x = PBool (val \<noteq> [])" by (simp add: validate_field_bool)
  with r x show "\<exists>rd xs item. get_restaurant s' slug = (s', Inr (PDict rd))
               \<and> map_of rd ''menu'' = Some (PList xs) \<and> 0 \<le> index \<and> nat index < length xs
               \<and> xs ! nat index = PDict item
               \<and> map_of item ''is_chefs_special'' = Some (PBool (val \<noteq> []))"
    by blast
qed

text \<open>
  The theorem for the request body \<open>{"is_available": "No", "is_chefs_special": "no"}\<close> on
  an available entry that is no chef's special: through the handler the entry becomes
  unavailable and a chef's special.
\<close>

theorem boolean_fields_coercion_witness:
  "distinct (map fst [(''is_available'', PStr ''No''), (''is_chefs_special'', PStr ''no'')])
   \<and> api_update_item B0 (store_with tea) ''cafe'' 0
        [(''is_available'', PStr ''No''), (''is_chefs_special'', PStr ''no'')]
       = (store_with (AList.update ''is_chefs_special'' (PBool True)
                       (AList.update ''is_available'' (PBool False) tea)), Inr 200)
   \<and> get_restaurant (store_with (AList.update ''is_chefs_special'' (PBool True)
                       (AList.update ''is_available'' (PBool False) tea))) ''cafe''
       = (store_with (AList.update ''is_chefs_special'' (PBool True)
                       (AList.update ''is_available'' (PBool False) tea)),
          Inr (PDict (cafe (AList.update ''is_chefs_special'' (PBool True)
                       (AList.update ''is_available'' (PBool False) tea)))))
   \<and> lower B0 ''No'' = ''no''
   \<and> (\<exists>rd xs item.
         get_restaurant (store_with (AList.update ''is_chefs_special'' (PBool True)
                       (AList.update ''is_available'' (PBool False) tea))) ''cafe''
           = (store_with (AList.update ''is_chefs_special'' (PBool True)
                       (AList.update ''is_available'' (PBool False) tea)), Inr (PDict rd))
         \<and> map_of rd ''menu'' = Some (PList xs) \<and> (0::int) \<le> 0 \<and> nat 0 < length xs
         \<and> xs ! nat 0 = PDict item
         \<and> map_of item ''is_available''
             = Some (PBool (lower B0 ''No'' \<in> set [''1'', ''true'', ''yes''])))
   \<and> (\<exists>rd xs item.
         get_restaurant (store_with (AList.update ''is_chefs_special'' (PBool True)
                       (AList.update ''is_available'' (PBool False) tea))) ''cafe''
           = (store_with (AList.update ''is_chefs_special'' (PBool True)
                       (AList.update ''is_available'' (PBool False) tea)), Inr (PDict rd))
         \<and> map_of rd ''menu'' = Some (PList xs) \<and> (0::int) \<le> 0 \<and> nat 0 < length xs
         \<and> xs ! nat 0 = PDict item
         \<and> map_of item ''is_chefs_special'' = Some (PBool (''no'' \<noteq> [])))"
proof -
  have h: "distinct (map fst [(''is_available'', PStr ''No''), (''is_chefs_special'', PStr ''no'')])"
    by simp
  have a: "api_update_item B0 (store_with tea) ''cafe'' 0
        [(''is_available'', PStr ''No''), (''is_chefs_special'', PStr ''no'')]
       = (store_with (AList.update ''is_chefs_special'' (PBool True)
                       (AList.update ''is_available'' (PBool False) tea)), Inr 200)"
    by code_simp
  have g: "get_restaurant (store_with (AList.update ''is_chefs_special'' (PBool True)
                       (AList.update ''is_available'' (PBool False) tea))) ''cafe''
       = (store_with (AList.update ''is_chefs_special'' (PBool True)
                       (AList.update ''is_available'' (PBool False) tea)),
          Inr (PDict (cafe (AList.update ''is_chefs_special'' (PBool True)
                       (AList.update ''is_available'' (PBool False) tea)))))"
    by code_simp
  have l: "lower B0 ''No'' = ''no''" by code_simp
  have m1: "map_of [(''is_available'', PStr ''No''), (''is_chefs_special'', PStr ''no'')]
      ''is_available'' = Some (PStr ''No'')" by simp
  have m2: "map_of [(''is_available'', PStr ''No''), (''is_chefs_special'', PStr ''no'')]
      ''is_chefs_special'' = Some (PStr ''no'')" by simp
  note t = boolean_fields_coercion[OF h, of B0 "store_with tea" "''cafe''" 0]
  from t m1 a have c1: "\<exists>rd xs item.
         get_restaurant (store_with (AList.update ''is_chefs_special'' (PBool True)
                       (AList.update ''is_available'' (PBool False) tea))) ''cafe''
           = (store_with (AList.update ''is_chefs_special'' (PBool True)
                       (AList.update ''is_available'' (PBool False) tea)), Inr (PDict rd))
         \<and> map_of rd ''menu'' = Some (PList xs) \<and> (0::int) \<le> 0 \<and> nat 0 < length xs
         \<and> xs ! nat 0 = PDict item
         \<and> map_of item ''is_available''
             = Some (PBool (lower B0 ''No'' \<in> set [''1'', ''true'', ''yes'']))"
    by blast
  from t m2 a have c2: "\<exists>rd xs item.
         get_restaurant (store_with (AList.update ''is_chefs_special'' (PBool True)
                       (AList.update ''is_available'' (PBool False) tea))) ''cafe''
           = (store_with (AList.update ''is_chefs_special'' (PBool True)
                       (AList.update ''is_available'' (PBool False) tea)), Inr (PDict rd))
         \<and> map_of rd ''menu'' = Some (PList xs) \<and> (0::int) \<le> 0 \<and> nat 0 < length xs
         \<and> xs ! nat 0 = PDict item
         \<and> map_of item ''is_chefs_special'' = Some (PBool (''no'' \<noteq> []))"
    by blast
  from h a g l c1 c2 show ?thesis by blast
qed

text \<open>
  The claim as stated has \<open>update_menu_item\<close> coerce other strings to false; the string
  \<open>"no"\<close> turns an unavailable entry into an available one.
\<close>

theorem availability_no_coerced_to_true:
  "update_menu_item B0 (store_with (AList.update ''is_available'' (PBool False) tea)) ''cafe'' 0
      [(''is_available'', PStr ''no'')]
     = (store_with tea, Inr True)"
  by code_simp

text \<open>
  C5. The claim: a malformed menu entry is dropped and never makes the creation fail or
  raise. An entry that is no dict or has no \<open>name\<close> is dropped. An entry with a name and
  a price that \<open>float\<close> rejects is not: \<open>float(item.get('price', 0))\<close> raises
  \<open>ValueError\<close> out of \<open>create_restaurant\<close>, and nothing is written, though the draft
  without that entry is created.
\<close>

theorem create_restaurant_bad_price_raises:
  "create_restaurant B0 empty_store (Fin 0) ''cafe''
      [(''name'', PStr ''Cafe''),
       (''menu'', PList [PDict [(''name'', PStr ''Tea''), (''price'', PInt 50),
                                (''category'', PStr ''drinks'')],
                         PDict [(''name'', PStr ''Soup''), (''price'', PStr ''abc'')]])]
      ''default''
     = (empty_store, Inl ValueError)
   \<and> create_restaurant B0 empty_store (Fin 0) ''cafe''
      [(''name'', PStr ''Cafe''),
       (''menu'', PList [PDict [(''name'', PStr ''Tea''), (''price'', PInt 50),
                                (''category'', PStr ''drinks'')]])]
      ''default''
     = (store_with tea, Inr True)"
  by code_simp

text \<open>
  C6. When \<open>update_menu_item\<close> succeeds on a patch, the record read back differs from
  the one before only in entry \<open>index\<close> of the menu; there, every allowed field of the
  patch has its validated value and every other field is as before. Applying the same
  patch again succeeds and leaves the store identical.
\<close>

theorem update_menu_item_merge:
  assumes "update_menu_item B s slug index flds = (s', Inr True)"
    and "distinct (map fst flds)"
  shows "\<exists>rd xs item item'.
      get_restaurant s slug = (s, Inr (PDict rd)) \<and> map_of rd ''menu'' = Some (PList xs) \<and>
      0 \<le> index \<and> nat index < length xs \<and> xs ! nat index = PDict item \<and>
      get_restaurant s' slug =
        (s', Inr (PDict (AList.update ''menu'' (PList (xs[nat index := PDict item'])) rd))) \<and>
      (\<forall>k v. map_of flds k = Some v \<and> k \<in> set VALID_ITEM_FIELDS \<longrightarrow>
             map_of item' k \<noteq> None \<and> validate_field B k v = Inr (map_of item' k)) \<and>
      (\<forall>k. map_of flds k = None \<or> k \<notin> set VALID_ITEM_FIELDS \<longrightarrow> map_of item' k = map_of item k) \<and>
      update_menu_item B s' slug index flds = (s', Inr True)"
  using assms by (rule update_menu_item_merge_core)

text \<open>
  The theorem at the store with one restaurant: a patch with a price, a category and an
  unknown field. The double of 12.345 lies above 12.345, so the price stored is 12.35.
\<close>

theorem update_menu_item_merge_witness:
  "update_menu_item B0 (store_with tea) ''cafe'' 0
      [(''price'', PStr ''12.345''), (''category'', PStr '' hot drinks ''), (''colour'', PInt 1)]
     = (store_with (AList.update ''category'' (PStr ''Hot Drinks'')
                      (AList.update ''price'' (PFloat (double_of_rat 12.35)) tea)), Inr True)
   \<and> distinct (map fst [(''price'', PStr ''12.345''), (''category'', PStr '' hot drinks ''),
                          (''colour'', PInt 1)])
   \<and> update_menu_item B0
        (store_with (AList.update ''category'' (PStr ''Hot Drinks'')
                      (AList.update ''price'' (PFloat (double_of_rat 12.35)) tea))) ''cafe'' 0
        [(''price'', PStr ''12.345''), (''category'', PStr '' hot drinks ''), (''colour'', PInt 1)]
     = (store_with (AList.update ''category'' (PStr ''Hot Drinks'')
                      (AList.update ''price'' (PFloat (double_of_rat 12.35)) tea)), Inr True)"
proof -
  have h1: "update_menu_item B0 (store_with tea) ''cafe'' 0
      [(''price'', PStr ''12.345''), (''category'', PStr '' hot drinks ''), (''colour'', PInt 1)]
     = (store_with (AList.update ''category'' (PStr ''Hot Drinks'')
                      (AList.update ''price'' (PFloat (double_of_rat 12.35)) tea)), Inr True)"
    by code_simp
  have h2: "distinct (map fst [(''price'', PStr ''12.345''), (''category'', PStr '' hot drinks ''),
                          (''colour'', PInt 1)])"
    by simp
  from update_menu_item_merge[OF h1 h2] have c: "update_menu_item B0
        (store_with (AList.update ''category'' (PStr ''Hot Drinks'')
                      (AList.update ''price'' (PFloat (double_of_rat 12.35)) tea))) ''cafe'' 0
        [(''price'', PStr ''12.345''), (''category'', PStr '' hot drinks ''), (''colour'', PInt 1)]
     = (store_with (AList.update ''category'' (PStr ''Hot Drinks'')
                      (AList.update ''price'' (PFloat (double_of_rat 12.35)) tea)), Inr True)"
    by blast
  from h1 h2 c show ?thesis by blast
qed

text \<open>
  C7. For a year from 1 to 9999 and a month from 1 to 12 (December of 9999 apart),
  \<open>get_monthly_summary\<close> returns a summary: \<open>scans\<close> and \<open>clicks\<close> count the events
  of the slug from the first instant of the month, included, to the first instant of the
  next month, excluded, December rolling over to January of the next year;
  \<open>top_items\<close> has at most 10 entries, in falling order of count, one entry for an
  index, each with the number of clicks on that index in the window, and an index with
  clicks in the window that is left out has no more clicks than any entry.
\<close>

theorem get_monthly_summary_window_top10:
  assumes "1 \<le> y" "y \<le> 9999" "1 \<le> m" "m \<le> 12" "y < 9999 \<or> m < 12"
  shows "\<exists>r. get_monthly_summary evs now slug (Some y) (Some m) = Inr r
     \<and> scans r = length (filter (\<lambda>e. ev_slug e = slug \<and> ev_type e = ''scan''
                    \<and> [y, m, 1, 0, 0, 0, 0] \<le> dt_key (ev_ts e)
                    \<and> dt_key (ev_ts e) < (if m = 12 then [y + 1, 1, 1, 0, 0, 0, 0]
                                           else [y, m + 1, 1, 0, 0, 0, 0])) evs)
     \<and> clicks r = length (filter (\<lambda>e. ev_slug e = slug \<and> ev_type e = ''click''
                    \<and> [y, m, 1, 0, 0, 0, 0] \<le> dt_key (ev_ts e)
                    \<and> dt_key (ev_ts e) < (if m = 12 then [y + 1, 1, 1, 0, 0, 0, 0]
                                           else [y, m + 1, 1, 0, 0, 0, 0])) evs)
     \<and> length (top_items r) \<le> 10
     \<and> sorted_wrt (\<lambda>a b. snd b \<le> snd a) (top_items r)
     \<and> distinct (map fst (top_items r))
     \<and> (\<forall>i c. (i, c) \<in> set (top_items r) \<longrightarrow>
           0 < c \<and> c = length (filter (\<lambda>e. (ev_slug e = slug \<and> ev_type e = ''click''
                    \<and> [y, m, 1, 0, 0, 0, 0] \<le> dt_key (ev_ts e)
                    \<and> dt_key (ev_ts e) < (if m = 12 then [y + 1, 1, 1, 0, 0, 0, 0]
                                           else [y, m + 1, 1, 0, 0, 0, 0]))
                    \<and> ev_item_index e = i) evs))
     \<and> (\<forall>i. 0 < length (filter (\<lambda>e. (ev_slug e = slug \<and> ev_type e = ''click''
                    \<and> [y, m, 1, 0, 0, 0, 0] \<le> dt_key (ev_ts e)
                    \<and> dt_key (ev_ts e) < (if m = 12 then [y + 1, 1, 1, 0, 0, 0, 0]
                                           else [y, m + 1, 1, 0, 0, 0, 0]))
                    \<and> ev_item_index e = i) evs)
              \<and> i \<notin> fst ` set (top_items r) \<longrightarrow>
           length (top_items r) = 10
           \<and> (\<forall>z \<in> set (top_items r).
                 length (filter (\<lambda>e. (ev_slug e = slug \<and> ev_type e = ''click''
                    \<and> [y, m, 1, 0, 0, 0, 0] \<le> dt_key (ev_ts e)
                    \<and> dt_key (ev_ts e) < (if m = 12 then [y + 1, 1, 1, 0, 0, 0, 0]
                                           else [y, m + 1, 1, 0, 0, 0, 0]))
                    \<and> ev_item_index e = i) evs) \<le> snd z))"
proof -
  define W :: "event \<Rightarrow> bool" where "W = (\<lambda>e. ev_slug e = slug \<and> ev_type e = ''click''
                    \<and> [y, m, 1, 0, 0, 0, 0] \<le> dt_key (ev_ts e)
                    \<and> dt_key (ev_ts e) < (if m = 12 then [y + 1, 1, 1, 0, 0, 0, 0]
                                           else [y, m + 1, 1, 0, 0, 0, 0]))"
  define xs where "xs = map ev_item_index (filter W evs)"
  define t where "t = order_desc_limit 10 (group_count xs)"
  have cnt: "\<And>i. count_list xs i = length (filter (\<lambda>e. W e \<and> ev_item_index e = i) evs)"
    unfolding xs_def by (rule count_list_index)
  note e = get_monthly_summary_eq[OF assms, of evs now slug, folded W_def, folded xs_def, folded t_def]
  note p = top_of_groups[where xs=xs and n=10, folded t_def]
  have 1: "length t \<le> 10" by (rule p(1))
  have 2: "sorted_wrt (\<lambda>a b. snd b \<le> snd a) t" by (rule p(2))
  have 3: "distinct (map fst t)" by (rule p(3))
  have 4: "\<forall>i c. (i, c) \<in> set t \<longrightarrow>
           0 < c \<and> c = length (filter (\<lambda>e. W e \<and> ev_item_index e = i) evs)"
  proof (intro allI impI)
    fix i c assume "(i, c) \<in> set t"
    from p(4)[OF this] have "0 < c" and "c = count_list xs i" by blast+
    then show "0 < c \<and> c = length (filter (\<lambda>e. W e \<and> ev_item_index e = i) evs)"
      unfolding cnt by blast
  qed
  have 5: "\<forall>i. 0 < length (filter (\<lambda>e. W e \<and> ev_item_index e = i) evs)
              \<and> i \<notin> fst ` set t \<longrightarrow>
           length t = 10
           \<and> (\<forall>z \<in> set t. length (filter (\<lambda>e. W e \<and> ev_item_index e = i) evs) \<le> snd z)"
  proof (intro allI impI)
    fix i assume h: "0 < length (filter (\<lambda>e. W e \<and> ev_item_index e = i) evs)
              \<and> i \<notin> fst ` set t"
    then have c: "0 < count_list xs i" and n: "i \<notin> fst ` set t" by (simp_all add: cnt)
    from p(5)[OF c n] show "length t = 10
           \<and> (\<forall>z \<in> set t. length (filter (\<lambda>e. W e \<and> ev_item_index e = i) evs) \<le> snd z)"
      unfolding cnt by blast
  qed
  from e obtain r where r: "get_monthly_summary evs now slug (Some y) (Some m) = Inr r"
    and sc: "scans r = length (filter (\<lambda>e. ev_slug e = slug \<and> ev_type e = ''scan''
                    \<and> [y, m, 1, 0, 0, 0, 0] \<le> dt_key (ev_ts e)
                    \<and> dt_key (ev_ts e) < (if m = 12 then [y + 1, 1, 1, 0, 0, 0, 0]
                                           else [y, m + 1, 1, 0, 0, 0, 0])) evs)"
    and cl: "clicks r = length (filter W evs)" and ti: "top_items r = t"
    by simp
  have "\<exists>r. get_monthly_summary evs now slug (Some y) (Some m) = Inr r
     \<and> scans r = length (filter (\<lambda>e. ev_slug e = slug \<and> ev_type e = ''scan''
                    \<and> [y, m, 1, 0, 0, 0, 0] \<le> dt_key (ev_ts e)
                    \<and> dt_key (ev_ts e) < (if m = 12 then [y + 1, 1, 1, 0, 0, 0, 0]
                                           else [y, m + 1, 1, 0, 0, 0, 0])) evs)
     \<and> clicks r = length (filter W evs)
     \<and> length (top_items r) \<le> 10
     \<and> sorted_wrt (\<lambda>a b. snd b \<le> snd a) (top_items r)
     \<and> distinct (map fst (top_items r))
     \<and> (\<forall>i c. (i, c) \<in> set (top_items r) \<longrightarrow>
           0 < c \<and> c = length (filter (\<lambda>e. W e \<and> ev_item_index e = i) evs))
     \<and> (\<forall>i. 0 < length (filter (\<lambda>e. W e \<and> ev_item_index e = i) evs)
              \<and> i \<notin> fst ` set (top_items r) \<longrightarrow>
           length (top_items r) = 10
           \<and> (\<forall>z \<in> set (top_items r).
                 length (filter (\<lambda>e. W e \<and> ev_item_index e = i) evs) \<le> snd z))"
    using r sc cl 1 2 3 4 5 unfolding ti[symmetric] by blast
  then show ?thesis unfolding W_def .
qed

text \<open>
  The theorem for January 2024 on the log with three scans and five clicks in the month:
  3 scans, 5 clicks, entry 1 with 3 clicks before entry 0 with 2. The scan on the first
  instant of January is counted and the click on the first instant of February is not;
  the summary of December 2023 has the one scan of its last second.
\<close>

theorem get_monthly_summary_window_top10_witness:
  "(1::int) \<le> 2024 \<and> (2024::int) \<le> 9999 \<and> (1::int) \<le> 1 \<and> (1::int) \<le> 12
   \<and> ((2024::int) < 9999 \<or> (1::int) < 12)
   \<and> get_monthly_summary january_log (clock 2024 3 1 0 0 0) ''cafe'' (Some 2024) (Some 1)
       = Inr \<lparr>sm_year = 2024, sm_month = 1, scans = 3, clicks = 5,
              top_items = [(Some 1, 3), (Some 0, 2)]\<rparr>
   \<and> length (filter (\<lambda>e. ev_slug e = ''cafe'' \<and> ev_type e = ''scan''
                    \<and> [2024, 1, 1, 0, 0, 0, 0] \<le> dt_key (ev_ts e)
                    \<and> dt_key (ev_ts e) < (if (1::int) = 12 then [2024 + 1, 1, 1, 0, 0, 0, 0]
                                           else [2024, 1 + 1, 1, 0, 0, 0, 0])) january_log) = 3
   \<and> get_monthly_summary january_log (clock 2024 3 1 0 0 0) ''cafe'' (Some 2023) (Some 12)
       = Inr \<lparr>sm_year = 2023, sm_month = 12, scans = 1, clicks = 0, top_items = []\<rparr>"
proof -
  have h1: "(1::int) \<le> 2024" and h2: "(2024::int) \<le> 9999" and h3: "(1::int) \<le> 1"
    and h4: "(1::int) \<le> 12" and h5: "(2024::int) < 9999 \<or> (1::int) < 12"
    by simp_all
  have v: "get_monthly_summary january_log (clock 2024 3 1 0 0 0) ''cafe'' (Some 2024) (Some 1)
       = Inr \<lparr>sm_year = 2024, sm_month = 1, scans = 3, clicks = 5,
              top_items = [(Some 1, 3), (Some 0, 2)]\<rparr>"
    by code_simp
  have d: "get_monthly_summary january_log (clock 2024 3 1 0 0 0) ''cafe'' (Some 2023) (Some 12)
       = Inr \<lparr>sm_year = 2023, sm_month = 12, scans = 1, clicks = 0, top_items = []\<rparr>"
    by code_simp
  from get_monthly_summary_window_top10[OF h1 h2 h3 h4 h5, of january_log "clock 2024 3 1 0 0 0" "''cafe''"]
  obtain r where r: "get_monthly_summary january_log (clock 2024 3 1 0 0 0) ''cafe'' (Some 2024) (Some 1) = Inr r"
    and s: "scans r = length (filter (\<lambda>e. ev_slug e = ''cafe'' \<and> ev_type e = ''scan''
                    \<and> [2024, 1, 1, 0, 0, 0, 0] \<le> dt_key (ev_ts e)
                    \<and> dt_key (ev_ts e) < (if (1::int) = 12 then [2024 + 1, 1, 1, 0, 0, 0, 0]
                                           else [2024, 1 + 1, 1, 0, 0, 0, 0])) january_log)"
    by blast
  from r v have "r = \<lparr>sm_year = 2024, sm_month = 1, scans = 3, clicks = 5,
              top_items = [(Some 1, 3), (Some 0, 2)]\<rparr>" by simp
  then have "scans r = 3" by simp
  with s have c: "length (filter (\<lambda>e. ev_slug e = ''cafe'' \<and> ev_type e = ''scan''
                    \<and> [2024, 1, 1, 0, 0, 0, 0] \<le> dt_key (ev_ts e)
                    \<and> dt_key (ev_ts e) < (if (1::int) = 12 then [2024 + 1, 1, 1, 0, 0, 0, 0]
                                           else [2024, 1 + 1, 1, 0, 0, 0, 0])) january_log) = 3"
    by simp
  from h1 h2 h3 h4 h5 v c d show ?thesis by blast
qed

text \<open>
  C8. For a slug that matches the pattern and is not in the store, \<open>update_restaurant\<close>
  returns \<open>True\<close> and adds the given value under the slug exactly as it is, whatever
  it is: reading the slug afterwards returns that value.
\<close>

theorem update_restaurant_upsert:
  assumes "valid_slug slug" "snd (load_data s) = Inr data" "map_of data slug = None"
  shows "update_restaurant s slug r = (save_data s (data @ [(slug, r)]), Inr True)
       \<and> get_restaurant (save_data s (data @ [(slug, r)])) slug
           = (save_data s (data @ [(slug, r)]), Inr r)"
proof -
  from assms(2) have l: "load_data s = (s, Inr data)" by (simp add: load_data_eq)
  have u: "update_restaurant s slug r = (save_data s (data @ [(slug, r)]), Inr True)"
    using assms(1) l by (simp add: update_restaurant_def update_absent[OF assms(3)])
  have g: "get_restaurant (save_data s (data @ [(slug, r)])) slug
           = (save_data s (data @ [(slug, r)]), Inr r)"
    by (simp add: get_restaurant_Doc[OF data_file_save_data] dict_get_def map_add_def assms(3))
  from u g show ?thesis by blast
qed

text \<open>
  The theorem for a new slug and a record that \<open>create_restaurant\<close> would not have
  written: a menu entry that is no dict, a negative price, an unknown theme.
\<close>

theorem update_restaurant_upsert_witness:
  "valid_slug ''new-place-1''
   \<and> snd (load_data (store_with tea)) = Inr [(''cafe'', PDict (cafe tea))]
   \<and> map_of [(''cafe'', PDict (cafe tea))] ''new-place-1'' = None
   \<and> update_restaurant (store_with tea) ''new-place-1''
        (PDict [(''menu'', PList [PInt 7, PDict [(''price'', PInt (- 5))]]), (''theme'', PStr ''neon'')])
       = (save_data (store_with tea)
            ([(''cafe'', PDict (cafe tea))] @
             [(''new-place-1'',
               PDict [(''menu'', PList [PInt 7, PDict [(''price'', PInt (- 5))]]), (''theme'', PStr ''neon'')])]),
          Inr True)
   \<and> get_restaurant (save_data (store_with tea)
            ([(''cafe'', PDict (cafe tea))] @
             [(''new-place-1'',
               PDict [(''menu'', PList [PInt 7, PDict [(''price'', PInt (- 5))]]), (''theme'', PStr ''neon'')])]))
          ''new-place-1''
       = (save_data (store_with tea)
            ([(''cafe'', PDict (cafe tea))] @
             [(''new-place-1'',
               PDict [(''menu'', PList [PInt 7, PDict [(''price'', PInt (- 5))]]), (''theme'', PStr ''neon'')])]),
          Inr (PDict [(''menu'', PList [PInt 7, PDict [(''price'', PInt (- 5))]]), (''theme'', PStr ''neon'')]))"
proof -
  have h1: "valid_slug ''new-place-1''" by code_simp
  have h2: "snd (load_data (store_with tea)) = Inr [(''cafe'', PDict (cafe tea))]"
    by (simp add: load_data_eq store_with_def)
  have h3: "map_of [(''cafe'', PDict (cafe tea))] ''new-place-1'' = None" by simp
  from update_restaurant_upsert[OF h1 h2 h3] h1 h2 h3 show ?thesis by blast
qed

text \<open>
  C9. \<open>track_click\<close> writes under the key \<open>analytics\<close> of the record and
  \<open>get_analytics\<close> reads the keys \<open>total_clicks\<close> and \<open>item_clicks\<close>: whatever clicks
  are tracked, \<open>get_analytics\<close> answers as before, and for a restaurant made by
  \<open>create_restaurant\<close> it answers 0 clicks and no item clicks.
\<close>

theorem track_click_not_seen_by_get_analytics:
  "snd (get_analytics (track_clicks B s slug idxs) slug') = snd (get_analytics s slug')
   \<and> (create_restaurant B s0 now slug restaurant default_theme = (s, Inr True) \<longrightarrow>
        get_analytics (track_clicks B s slug idxs) slug
          = (track_clicks B s slug idxs,
             Inr (PDict [(''total_clicks'', PInt 0), (''item_clicks'', PDict [])])))"
proof (intro conjI impI)
  show "snd (get_analytics (track_clicks B s slug idxs) slug') = snd (get_analytics s slug')"
    by (rule track_clicks_invisible)
next
  assume c: "create_restaurant B s0 now slug restaurant default_theme = (s, Inr True)"
  from create_restaurant_True[OF c] obtain data rd where
    s: "s = save_data s0 (AList.update slug (PDict rd) data)"
    and t: "map_of rd ''total_clicks'' = None" and i: "map_of rd ''item_clicks'' = None"
    by fastforce
  have "snd (get_analytics s slug) = Inr (PDict [(''total_clicks'', PInt 0), (''item_clicks'', PDict [])])"
    unfolding s get_analytics_eq
    by (simp add: data_file_save_data dict_get_update bind_def dict_get_absent t i)
  then have "snd (get_analytics (track_clicks B s slug idxs) slug)
      = Inr (PDict [(''total_clicks'', PInt 0), (''item_clicks'', PDict [])])"
    by (simp add: track_clicks_invisible)
  moreover have "fst (get_analytics (track_clicks B s slug idxs) slug) = track_clicks B s slug idxs"
    by (simp add: get_analytics_eq)
  ultimately show "get_analytics (track_clicks B s slug idxs) slug
          = (track_clicks B s slug idxs,
             Inr (PDict [(''total_clicks'', PInt 0), (''item_clicks'', PDict [])]))"
    by (metis prod.collapse)
qed

text \<open>
  The theorem for a restaurant just created and three tracked clicks: the counters under
  \<open>analytics\<close> are 3 and 2, the answer of \<open>get_analytics\<close> is 0 and empty.
\<close>

theorem track_click_not_seen_by_get_analytics_witness:
  "create_restaurant B0 empty_store (Fin 0) ''cafe''
      [(''name'', PStr ''Cafe''),
       (''menu'', PList [PDict [(''name'', PStr ''Tea''), (''price'', PInt 50),
                                (''category'', PStr ''drinks'')]])]
      ''default'' = (store_with tea, Inr True)
   \<and> track_clicks B0 (store_with tea) ''cafe'' [PInt 0, PNone, PInt 0]
       = \<lparr>data_file = Doc [(''cafe'', PDict (cafe tea @
             [(''analytics'', PDict [(''total'', PInt 3), (''items'', PDict [(''0'', PInt 2)])])]))],
          side_files = []\<rparr>
   \<and> get_analytics (track_clicks B0 (store_with tea) ''cafe'' [PInt 0, PNone, PInt 0]) ''cafe''
       = (track_clicks B0 (store_with tea) ''cafe'' [PInt 0, PNone, PInt 0],
          Inr (PDict [(''total_clicks'', PInt 0), (''item_clicks'', PDict [])]))"
proof -
  have h: "create_restaurant B0 empty_store (Fin 0) ''cafe''
      [(''name'', PStr ''Cafe''),
       (''menu'', PList [PDict [(''name'', PStr ''Tea''), (''price'', PInt 50),
                                (''category'', PStr ''drinks'')]])]
      ''default'' = (store_with tea, Inr True)"
    by code_simp
  have t: "track_clicks B0 (store_with tea) ''cafe'' [PInt 0, PNone, PInt 0]
       = \<lparr>data_file = Doc [(''cafe'', PDict (cafe tea @
             [(''analytics'', PDict [(''total'', PInt 3), (''items'', PDict [(''0'', PInt 2)])])]))],
          side_files = []\<rparr>"
    by code_simp
  from track_click_not_seen_by_get_analytics[of B0 "store_with tea" "''cafe''" "[PInt 0, PNone, PInt 0]"
      "''cafe''" empty_store "Fin 0"] h
  have c: "get_analytics (track_clicks B0 (store_with tea) ''cafe'' [PInt 0, PNone, PInt 0]) ''cafe''
       = (track_clicks B0 (store_with tea) ''cafe'' [PInt 0, PNone, PInt 0],
          Inr (PDict [(''total_clicks'', PInt 0), (''item_clicks'', PDict [])]))"
    by blast
  from h t c show ?thesis by blast
qed

text \<open>
  C10. The clicks without an index are one group of the grouping, under the index
  \<open>NULL\<close> (\<open>None\<close>): \<open>get_monthly_summary\<close> and \<open>get_top_items\<close> return at most one
  entry with that index, and they return it, with the number of such clicks, whenever
  there is such a click in the window and the window has at most 10 (respectively 20)
  different indices.
\<close>

theorem null_index_clicks_form_one_group:
  assumes "1 \<le> y" "y \<le> 9999" "1 \<le> m" "m \<le> 12" "y < 9999 \<or> m < 12"
  shows "(\<exists>r. get_monthly_summary evs now slug (Some y) (Some m) = Inr r
           \<and> length (filter (\<lambda>g. fst g = None) (top_items r)) \<le> 1
           \<and> (0 < length (filter (\<lambda>e. (ev_slug e = slug \<and> ev_type e = ''click''
                    \<and> [y, m, 1, 0, 0, 0, 0] \<le> dt_key (ev_ts e)
                    \<and> dt_key (ev_ts e) < (if m = 12 then [y + 1, 1, 1, 0, 0, 0, 0]
                                           else [y, m + 1, 1, 0, 0, 0, 0]))
                    \<and> ev_item_index e = None) evs)
                \<and> card (set (map ev_item_index (filter (\<lambda>e. ev_slug e = slug
                    \<and> ev_type e = ''click''
                    \<and> [y, m, 1, 0, 0, 0, 0] \<le> dt_key (ev_ts e)
                    \<and> dt_key (ev_ts e) < (if m = 12 then [y + 1, 1, 1, 0, 0, 0, 0]
                                           else [y, m + 1, 1, 0, 0, 0, 0])) evs))) \<le> 10
              \<longrightarrow> (None, length (filter (\<lambda>e. (ev_slug e = slug \<and> ev_type e = ''click''
                    \<and> [y, m, 1, 0, 0, 0, 0] \<le> dt_key (ev_ts e)
                    \<and> dt_key (ev_ts e) < (if m = 12 then [y + 1, 1, 1, 0, 0, 0, 0]
                                           else [y, m + 1, 1, 0, 0, 0, 0]))
                    \<and> ev_item_index e = None) evs)) \<in> set (top_items r)))
       \<and> length (filter (\<lambda>g. fst g = None) (get_top_items evs since slug)) \<le> 1
       \<and> (0 < length (filter (\<lambda>e. (ev_slug e = slug \<and> ev_type e = ''click''
                    \<and> dt_key since \<le> dt_key (ev_ts e)) \<and> ev_item_index e = None) evs)
            \<and> card (set (map ev_item_index (filter (\<lambda>e. ev_slug e = slug
                    \<and> ev_type e = ''click'' \<and> dt_key since \<le> dt_key (ev_ts e)) evs))) \<le> 20
          \<longrightarrow> (None, length (filter (\<lambda>e. (ev_slug e = slug \<and> ev_type e = ''click''
                    \<and> dt_key since \<le> dt_key (ev_ts e)) \<and> ev_item_index e = None) evs))
                \<in> set (get_top_items evs since slug))"
proof -
  define W :: "event \<Rightarrow> bool" where "W = (\<lambda>e. ev_slug e = slug \<and> ev_type e = ''click''
                    \<and> [y, m, 1, 0, 0, 0, 0] \<le> dt_key (ev_ts e)
                    \<and> dt_key (ev_ts e) < (if m = 12 then [y + 1, 1, 1, 0, 0, 0, 0]
                                           else [y, m + 1, 1, 0, 0, 0, 0]))"
  define V :: "event \<Rightarrow> bool" where "V = (\<lambda>e. ev_slug e = slug \<and> ev_type e = ''click''
                    \<and> dt_key since \<le> dt_key (ev_ts e))"
  define xs where "xs = map ev_item_index (filter W evs)"
  define zs where "zs = map ev_item_index (filter V evs)"
  define t where "t = order_desc_limit 10 (group_count xs)"
  define u where "u = order_desc_limit 20 (group_count zs)"
  note e = get_monthly_summary_eq[OF assms, of evs now slug, folded W_def, folded xs_def, folded t_def]
  have g: "get_top_items evs since slug = u"
    by (simp add: get_top_items_def since_window_fun u_def zs_def V_def)
  note p = top_of_groups[where xs=xs and n=10, folded t_def]
  note q = top_of_groups[where xs=zs and n=20, folded u_def]
  from e obtain r where r: "get_monthly_summary evs now slug (Some y) (Some m) = Inr r"
    and ti: "top_items r = t"
    by simp
  have 1: "length (filter (\<lambda>g. fst g = None) t) \<le> 1"
    by (rule distinct_keys_filter_le1[OF p(3)])
  have 2: "0 < length (filter (\<lambda>e. W e \<and> ev_item_index e = None) evs)
              \<and> card (set (map ev_item_index (filter W evs))) \<le> 10
       \<longrightarrow> (None, length (filter (\<lambda>e. W e \<and> ev_item_index e = None) evs)) \<in> set t"
    using p(6)[of None] unfolding xs_def count_list_index by blast
  have 3: "length (filter (\<lambda>g. fst g = None) u) \<le> 1"
    by (rule distinct_keys_filter_le1[OF q(3)])
  have 4: "0 < length (filter (\<lambda>e. V e \<and> ev_item_index e = None) evs)
              \<and> card (set (map ev_item_index (filter V evs))) \<le> 20
       \<longrightarrow> (None, length (filter (\<lambda>e. V e \<and> ev_item_index e = None) evs)) \<in> set u"
    using q(6)[of None] unfolding zs_def count_list_index by blast
  have "(\<exists>r. get_monthly_summary evs now slug (Some y) (Some m) = Inr r
           \<and> length (filter (\<lambda>g. fst g = None) (top_items r)) \<le> 1
           \<and> (0 < length (filter (\<lambda>e. W e \<and> ev_item_index e = None) evs)
                \<and> card (set (map ev_item_index (filter W evs))) \<le> 10
              \<longrightarrow> (None, length (filter (\<lambda>e. W e \<and> ev_item_index e = None) evs))
                    \<in> set (top_items r)))
       \<and> length (filter (\<lambda>g. fst g = None) (get_top_items evs since slug)) \<le> 1
       \<and> (0 < length (filter (\<lambda>e. V e \<and> ev_item_index e = None) evs)
            \<and> card (set (map ev_item_index (filter V evs))) \<le> 20
          \<longrightarrow> (None, length (filter (\<lambda>e. V e \<and> ev_item_index e = None) evs))
                \<in> set (get_top_items evs since slug))"
    using r 1 2 3 4 unfolding ti[symmetric] g by blast
  then show ?thesis unfolding W_def V_def .
qed

text \<open>
  The theorem on the log with four clicks without an index: their entry leads both
  results, before the entries of the menu indices 1 and 0.
\<close>

theorem null_index_clicks_form_one_group_witness:
  "(1::int) \<le> 2024 \<and> (2024::int) \<le> 9999 \<and> (1::int) \<le> 1 \<and> (1::int) \<le> 12
   \<and> ((2024::int) < 9999 \<or> (1::int) < 12)
   \<and> get_monthly_summary general_log (clock 2024 1 20 0 0 0) ''cafe'' (Some 2024) (Some 1)
       = Inr \<lparr>sm_year = 2024, sm_month = 1, scans = 3, clicks = 9,
              top_items = [(None, 4), (Some 1, 3), (Some 0, 2)]\<rparr>
   \<and> get_top_items general_log (clock 2024 1 6 0 0 0) ''cafe''
       = [(None, 4), (Some 1, 3), (Some 0, 2)]
   \<and> length (filter (\<lambda>g. fst g = None) (get_top_items general_log (clock 2024 1 6 0 0 0) ''cafe'')) \<le> 1"
proof -
  have h1: "(1::int) \<le> 2024" and h2: "(2024::int) \<le> 9999" and h3: "(1::int) \<le> 1"
    and h4: "(1::int) \<le> 12" and h5: "(2024::int) < 9999 \<or> (1::int) < 12"
    by simp_all
  have v: "get_monthly_summary general_log (clock 2024 1 20 0 0 0) ''cafe'' (Some 2024) (Some 1)
       = Inr \<lparr>sm_year = 2024, sm_month = 1, scans = 3, clicks = 9,
              top_items = [(None, 4), (Some 1, 3), (Some 0, 2)]\<rparr>"
    by code_simp
  have w: "get_top_items general_log (clock 2024 1 6 0 0 0) ''cafe''
       = [(None, 4), (Some 1, 3), (Some 0, 2)]"
    by code_simp
  from null_index_clicks_form_one_group[OF h1 h2 h3 h4 h5, of general_log "clock 2024 1 20 0 0 0"
      "''cafe''" "clock 2024 1 6 0 0 0"]
  have c: "length (filter (\<lambda>g. fst g = None) (get_top_items general_log (clock 2024 1 6 0 0 0) ''cafe'')) \<le> 1"
    by blast
  from h1 h2 h3 h4 h5 v w c show ?thesis by blast
qed

end
